theory Spec2Isabelle
  imports Complex_Main "HOL-Library.Word" "HOL-Library.Multiset"
begin

unbundle bit_operations_syntax

section \<open>Exceptions\<close>

text \<open>
  The Python exceptions the three source files can raise.  \<open>CollaboratorError\<close> stands
  for any exception raised inside one of the opaque collaborators (the pickled scaler
  and classifier, the mediapipe and OpenCV drawing routines).
\<close>

datatype py_error =
    ValueError
  | IndexError
  | KeyError
  | ZeroDivisionError
  | FileNotFoundError
  | CollaboratorError

section \<open>Images (\<open>utils.py\<close>, \<open>demo.py\<close>)\<close>

text \<open>
  A camera frame and an overlay canvas are numpy arrays of shape \<open>(h, w, 3)\<close> and dtype
  \<open>uint8\<close>: the frame comes from \<open>cam.read()\<close>, the canvas from
  \<open>np.zeros(rgb_image.shape, dtype=np.uint8)\<close>.  A pixel is its three channels; an array
  carries its two leading dimensions, since an array with no rows still has a width.
\<close>

type_synonym u8 = "8 word"
type_synonym pixel = "u8 \<times> u8 \<times> u8"

record 'a grid =
  nrows :: nat
  ncols :: nat
  cells :: "'a list list"

type_synonym image = "pixel grid"

definition wf_grid :: "'a grid \<Rightarrow> bool" where
  "wf_grid g = (length (cells g) = nrows g \<and> list_all (\<lambda>r. length r = ncols g) (cells g))"

definition np_zeros :: "nat \<Rightarrow> nat \<Rightarrow> image" where
  "np_zeros h w = \<lparr>nrows = h, ncols = w, cells = replicate h (replicate w (0, 0, 0))\<rparr>"

text \<open>\<open>ndarray.size\<close>: the number of scalars of an \<open>(h, w, 3)\<close> array.\<close>

definition np_size :: "image \<Rightarrow> nat" where
  "np_size img = nrows img * ncols img * 3"

text \<open>\<open>cv2.flip(img, 1)\<close> mirrors every row; \<open>cv2.cvtColor(frame, cv2.COLOR_BGR2RGB)\<close>
  swaps the first and the third channel.\<close>

definition cv2_flip :: "image \<Rightarrow> image" where
  "cv2_flip img = img\<lparr>cells := map rev (cells img)\<rparr>"

definition map_grid :: "('a \<Rightarrow> 'b) \<Rightarrow> 'a grid \<Rightarrow> 'b grid" where
  "map_grid f A = \<lparr>nrows = nrows A, ncols = ncols A, cells = map (map f) (cells A)\<rparr>"

definition cvtColor_BGR2RGB :: "image \<Rightarrow> image" where
  "cvtColor_BGR2RGB img = map_grid (\<lambda>(b, g, r). (r, g, b)) img"

subsection \<open>numpy broadcasting of the two leading axes\<close>

text \<open>
  Two axes are compatible when they are equal or one of them is 1; an axis of length 1 is
  repeated.  Incompatible shapes raise \<open>ValueError\<close>.
\<close>

definition broadcast_dim :: "nat \<Rightarrow> nat \<Rightarrow> py_error + nat" where
  "broadcast_dim a b =
     (if a = b then Inr a else if a = 1 then Inr b else if b = 1 then Inr a
      else Inl ValueError)"

definition stretch :: "nat \<Rightarrow> 'a list \<Rightarrow> 'a list" where
  "stretch n xs = (case xs of [x] \<Rightarrow> replicate n x | _ \<Rightarrow> xs)"

definition broadcast2 ::
  "('a \<Rightarrow> 'b \<Rightarrow> 'c) \<Rightarrow> 'a grid \<Rightarrow> 'b grid \<Rightarrow> py_error + 'c grid" where
  "broadcast2 f A B =
     (case broadcast_dim (nrows A) (nrows B) of
        Inl e \<Rightarrow> Inl e
      | Inr h \<Rightarrow>
          (case broadcast_dim (ncols A) (ncols B) of
             Inl e \<Rightarrow> Inl e
           | Inr w \<Rightarrow>
               Inr \<lparr>nrows = h, ncols = w,
                    cells = map2 (\<lambda>ra rb. map2 f (stretch w ra) (stretch w rb))
                              (stretch h (cells A)) (stretch h (cells B))\<rparr>))"

subsection \<open>\<open>add_transparent_image\<close> (\<open>utils.py\<close>, lines 109 to 116)\<close>

text \<open>
  \<open>np.sum(foreground, axis=-1)\<close> adds the three \<open>uint8\<close> channels in a 64-bit unsigned
  accumulator (numpy widens a narrow unsigned dtype to the platform's unsigned integer);
  the comparison with 0 gives a boolean that \<open>np.uint8\<close> turns into 0 or 1.
\<close>

definition channel_sum :: "pixel \<Rightarrow> 64 word" where
  "channel_sum p = (case p of (c0, c1, c2) \<Rightarrow> ucast c0 + ucast c1 + ucast c2)"

definition alpha_of :: "pixel \<Rightarrow> u8" where
  "alpha_of p = (if channel_sum p > 0 then 1 else 0)"

text \<open>The \<open>uint8\<close> products and sums of the return expression wrap around modulo 256.\<close>

definition scale_px :: "pixel \<Rightarrow> u8 \<Rightarrow> pixel" where
  "scale_px p a = (case p of (c0, c1, c2) \<Rightarrow> (c0 * a, c1 * a, c2 * a))"

definition add_px :: "pixel \<Rightarrow> pixel \<Rightarrow> pixel" where
  "add_px p q =
     (case (p, q) of ((a0, a1, a2), (b0, b1, b2)) \<Rightarrow> (a0 + b0, a1 + b1, a2 + b2))"

text \<open>
  \<open>alpha\<close> has the foreground's two leading axes; \<open>foreground_colors\<close> is the
  foreground again (the first three of the four stacked channels) and \<open>alpha_mask\<close> is
  \<open>alpha\<close> with a trailing axis of length 1.  The return expression is
  \<open>background * (1 - alpha_mask) + foreground_colors * alpha_mask\<close>.
\<close>

definition add_transparent_image :: "image \<Rightarrow> image \<Rightarrow> py_error + image" where
  "add_transparent_image background foreground =
     (let alpha = map_grid alpha_of foreground;
          inv_alpha = map_grid (\<lambda>a. 1 - a) alpha
      in case broadcast2 scale_px background inv_alpha of
           Inl e \<Rightarrow> Inl e
         | Inr bg_part \<Rightarrow>
             (case broadcast2 scale_px foreground alpha of
                Inl e \<Rightarrow> Inl e
              | Inr fg_part \<Rightarrow> broadcast2 add_px bg_part fg_part))"

text \<open>
  The same function on a store of arrays: the two arguments are references, every numpy
  operation of the body allocates its result (the assignment to \<open>foreground\<close> rebinds the
  local name to the stacked copy), and the returned array is a new cell of the store.
\<close>

type_synonym heap = "image list"

definition add_transparent_image_at :: "heap \<Rightarrow> nat \<Rightarrow> nat \<Rightarrow> py_error + heap \<times> nat" where
  "add_transparent_image_at hp background foreground =
     (case add_transparent_image (hp ! background) (hp ! foreground) of
        Inl e \<Rightarrow> Inl e
      | Inr out \<Rightarrow> Inr (hp @ [out], length hp))"

text \<open>The per-pixel rule, stated on the channel values as natural numbers.\<close>

definition is_foreground :: "pixel \<Rightarrow> bool" where
  "is_foreground p = (case p of (c0, c1, c2) \<Rightarrow> unat c0 + unat c1 + unat c2 > 0)"

definition select_px :: "pixel \<Rightarrow> pixel \<Rightarrow> pixel" where
  "select_px b f = (if is_foreground f then f else b)"

section \<open>Detection results and collaborators\<close>

record landmark =
  lm_x :: real
  lm_y :: real
  lm_z :: real

record category =
  index :: int
  category_name :: string

record detection_result =
  hand_landmarks :: "landmark list list"
  hand_world_landmarks :: "landmark list list"
  handedness :: "category list list"

text \<open>
  The opaque parts: \<open>scaler.transform\<close> and \<open>classifier.predict\<close> of the two pickled
  objects (on the single feature row, giving the single label),
  \<open>solutions.drawing_utils.draw_landmarks\<close> with the fixed hand connections and styles,
  and \<open>cv2.putText\<close> with the fixed font, colour and thickness.  Each may raise.
\<close>

record collaborators =
  scaler_transform :: "real list \<Rightarrow> py_error + real list"
  classifier_predict :: "real list \<Rightarrow> py_error + string"
  draw_landmarks :: "image \<Rightarrow> landmark list \<Rightarrow> py_error + image"
  putText :: "image \<Rightarrow> string \<Rightarrow> int \<times> int \<Rightarrow> py_error + image"

section \<open>\<open>draw_landmarks_on_image\<close> (\<open>utils.py\<close>, lines 66 to 106)\<close>

definition MARGIN :: int where
  "MARGIN = 10"

text \<open>Python's \<open>int\<close> of a float truncates towards zero; \<open>max\<close> and \<open>min\<close> of an empty
  list raise \<open>ValueError\<close>.  Coordinates are taken as exact reals.\<close>

definition py_int :: "real \<Rightarrow> int" where
  "py_int r = (if r < 0 then \<lceil>r\<rceil> else \<lfloor>r\<rfloor>)"

definition py_max :: "real list \<Rightarrow> py_error + real" where
  "py_max xs = (case xs of [] \<Rightarrow> Inl ValueError | x # rest \<Rightarrow> Inr (fold max rest x))"

definition py_min :: "real list \<Rightarrow> py_error + real" where
  "py_min xs = (case xs of [] \<Rightarrow> Inl ValueError | x # rest \<Rightarrow> Inr (fold min rest x))"

text \<open>Lines 88 to 91 and the \<open>org\<close> argument of line 97.\<close>

definition text_org :: "nat \<Rightarrow> nat \<Rightarrow> landmark list \<Rightarrow> py_error + int \<times> int" where
  "text_org h w hand =
     (case py_max (map lm_x hand) of
        Inl e \<Rightarrow> Inl e
      | Inr x \<Rightarrow>
          (case py_min (map lm_y hand) of
             Inl e \<Rightarrow> Inl e
           | Inr y \<Rightarrow>
               (let text_x = py_int (x * real w) + MARGIN;
                    text_y = py_int (y * real h) - MARGIN
                in Inr (int w - text_x, text_y))))"

text \<open>The loop over the detected hands, from index \<open>idx\<close> on.\<close>

fun draw_hands ::
  "collaborators \<Rightarrow> nat \<Rightarrow> nat \<Rightarrow> string list \<Rightarrow> nat \<Rightarrow> landmark list list \<Rightarrow> image
     \<Rightarrow> py_error + image" where
  "draw_hands c h w preds idx [] annotated_image = Inr annotated_image"
| "draw_hands c h w preds idx (hand # rest) annotated_image =
     (case draw_landmarks c annotated_image hand of
        Inl e \<Rightarrow> Inl e
      | Inr drawn \<Rightarrow>
          (case text_org h w hand of
             Inl e \<Rightarrow> Inl e
           | Inr org \<Rightarrow>
               if idx < length preds then
                 (case putText c (cv2_flip drawn) (preds ! idx) org of
                    Inl e \<Rightarrow> Inl e
                  | Inr labelled \<Rightarrow>
                      draw_hands c h w preds (Suc idx) rest (cv2_flip labelled))
               else Inl IndexError))"

definition draw_landmarks_on_image ::
  "collaborators \<Rightarrow> image \<Rightarrow> detection_result \<Rightarrow> string list \<Rightarrow> py_error + image" where
  "draw_landmarks_on_image c rgb_image detection_result preds =
     draw_hands c (nrows rgb_image) (ncols rgb_image) preds 0
       (hand_landmarks detection_result)
       (np_zeros (nrows rgb_image) (ncols rgb_image))"

text \<open>
  The pixel column and row that the scaling of lines 90 and 91 gives a landmark, and the
  column to which \<open>cv2.flip(img, 1)\<close> moves column \<open>j\<close> of an image \<open>w\<close> pixels wide.
\<close>

definition scaled_x :: "nat \<Rightarrow> landmark \<Rightarrow> int" where
  "scaled_x w l = py_int (lm_x l * real w)"

definition scaled_y :: "nat \<Rightarrow> landmark \<Rightarrow> int" where
  "scaled_y h l = py_int (lm_y l * real h)"

definition mirror_col :: "nat \<Rightarrow> int \<Rightarrow> int" where
  "mirror_col w j = int w - 1 - j"

text \<open>
  Following the spec's words (section 4.3): the hand's topmost-leftmost landmark, the
  minimum x and the minimum y over the hand's landmarks, scaled to the frame.
\<close>

definition spec_topmost_leftmost :: "nat \<Rightarrow> nat \<Rightarrow> landmark list \<Rightarrow> py_error + int \<times> int" where
  "spec_topmost_leftmost h w hand =
     (case py_min (map lm_x hand) of
        Inl e \<Rightarrow> Inl e
      | Inr x \<Rightarrow>
          (case py_min (map lm_y hand) of
             Inl e \<Rightarrow> Inl e
           | Inr y \<Rightarrow> Inr (py_int (x * real w), py_int (y * real h))))"

section \<open>The detection callback \<open>print_result\<close> (\<open>demo.py\<close>, lines 17 to 39)\<close>

text \<open>The two module globals the callback writes and the capture loop reads.\<close>

record shared =
  predictions :: "string list"
  drawn_frame :: image

text \<open>Lines 30, 31 and the argument of line 33: the feature row of one hand.\<close>

definition flatten_landmarks :: "landmark list \<Rightarrow> real list" where
  "flatten_landmarks lms = concat (map (\<lambda>l. [lm_x l, lm_y l, lm_z l]) lms)"

definition encode :: "int \<Rightarrow> landmark list \<Rightarrow> real list" where
  "encode hand_index lms = of_int hand_index # flatten_landmarks lms"

text \<open>\<open>handedness_ls[idx][0].index\<close>, with both subscripts checked.\<close>

definition handedness_index :: "category list list \<Rightarrow> nat \<Rightarrow> py_error + int" where
  "handedness_index hs idx =
     (if idx < length hs then
        (case hs ! idx of [] \<Rightarrow> Inl IndexError | cat # _ \<Rightarrow> Inr (index cat))
      else Inl IndexError)"

text \<open>Lines 30 to 34 for one hand: encode, scale, predict.\<close>

definition classify_hand ::
  "collaborators \<Rightarrow> category list list \<Rightarrow> nat \<Rightarrow> landmark list \<Rightarrow> py_error + string" where
  "classify_hand c hs idx lms =
     (case handedness_index hs idx of
        Inl e \<Rightarrow> Inl e
      | Inr h \<Rightarrow>
          (case scaler_transform c (encode h lms) of
             Inl e \<Rightarrow> Inl e
           | Inr data \<Rightarrow> classifier_predict c data))"

text \<open>
  The loop of lines 29 to 35 from index \<open>idx\<close> on.  It returns the successive values of
  the globals, one per \<open>predictions.append\<close>, and the exception that ended it, if any.
\<close>

fun hands_loop ::
  "collaborators \<Rightarrow> category list list \<Rightarrow> nat \<Rightarrow> landmark list list \<Rightarrow> shared
     \<Rightarrow> shared list \<times> py_error option" where
  "hands_loop c hs idx [] s = ([], None)"
| "hands_loop c hs idx (lms # rest) s =
     (case classify_hand c hs idx lms of
        Inl e \<Rightarrow> ([], Some e)
      | Inr prediction \<Rightarrow>
          (let s' = s\<lparr>predictions := predictions s @ [prediction]\<rparr>;
               (tr, failed) = hands_loop c hs (Suc idx) rest s'
           in (s' # tr, failed)))"

text \<open>
  The callback: the successive values of the globals after each write (the reset of line
  27 first, the assignment of line 37 last), and the exception the handler of line 38
  printed, if any.
\<close>

definition print_result_trace ::
  "collaborators \<Rightarrow> shared \<Rightarrow> detection_result \<Rightarrow> image \<Rightarrow> shared list \<times> py_error option" where
  "print_result_trace c s result output_image =
     (let s0 = s\<lparr>predictions := []\<rparr>;
          (tr, failed) = hands_loop c (handedness result) 0 (hand_world_landmarks result) s0;
          s1 = last (s0 # tr)
      in case failed of
           Some e \<Rightarrow> (s0 # tr, Some e)
         | None \<Rightarrow>
             (case draw_landmarks_on_image c output_image result (predictions s1) of
                Inl e \<Rightarrow> (s0 # tr, Some e)
              | Inr img \<Rightarrow> (s0 # tr @ [s1\<lparr>drawn_frame := img\<rparr>], None)))"

definition print_result :: "collaborators \<Rightarrow> shared \<Rightarrow> detection_result \<Rightarrow> image \<Rightarrow> shared" where
  "print_result c s result output_image =
     last (fst (print_result_trace c s result output_image))"

text \<open>
  What the loop of lines 29 to 35 meets on a detection result: \<open>ps\<close> are the labels of
  the hands classified before the first failure (of all hands when none fails), and \<open>e\<close>
  is the exception of that failure.
\<close>

definition classified_prefix ::
  "collaborators \<Rightarrow> detection_result \<Rightarrow> string list \<Rightarrow> py_error \<Rightarrow> bool" where
  "classified_prefix c r ps e =
     (length ps \<le> length (hand_world_landmarks r)
      \<and> (\<forall>j<length ps.
            classify_hand c (handedness r) j (hand_world_landmarks r ! j) = Inr (ps ! j))
      \<and> (length ps < length (hand_world_landmarks r) \<longrightarrow>
            classify_hand c (handedness r) (length ps)
              (hand_world_landmarks r ! length ps) = Inl e))"

section \<open>The capture loop (\<open>demo.py\<close>, lines 52 to 80)\<close>

definition INTERVAL :: int where
  "INTERVAL = 10"

text \<open>Line 56: \<open>math.floor(1000 / cam.get(cv2.CAP_PROP_FPS))\<close>, the quotient taken exactly.\<close>

definition frame_step :: "real \<Rightarrow> py_error + int" where
  "frame_step cam_fps = (if cam_fps = 0 then Inl ZeroDivisionError else Inr \<lfloor>1000 / cam_fps\<rfloor>)"

text \<open>
  What one iteration takes from its environment: \<open>cam.isOpened()\<close>, the pair of
  \<open>cam.read()\<close>, the values of the global \<open>drawn_frame\<close> at its two reads (lines 74 and
  75; the callback may replace it at any time), and the result of \<open>cv2.waitKey(5)\<close>.
\<close>

record tick =
  isOpened :: bool
  ret :: bool
  frame :: image
  drawn_frame_tested :: image
  drawn_frame_used :: image
  key :: int

record loop_state =
  timestamp :: int
  show_timestamp :: int
  submitted :: "(image \<times> int) list"
  shown :: "image list"

definition initial_loop_state :: loop_state where
  "initial_loop_state = \<lparr>timestamp = 0, show_timestamp = 0, submitted = [], shown = []\<rparr>"

text \<open>
  The loop over the iterations the environment provides, with the minimum gap and the
  per-frame step as parameters: \<open>submit_step\<close> is lines 68 to 72, \<open>composed_frame\<close>
  lines 74 and 75.  \<open>submitted\<close> lists the calls of \<open>detect_async\<close>, \<open>shown\<close> the
  frames given to \<open>cv2.imshow\<close>.  An exception of \<open>add_transparent_image\<close> is not
  caught and ends the run.
\<close>

definition submit_step :: "int \<Rightarrow> int \<Rightarrow> tick \<Rightarrow> loop_state \<Rightarrow> loop_state" where
  "submit_step interval fps t st =
     (let now = timestamp st + fps;
          mp_img = cvtColor_BGR2RGB (frame t)
      in if now - show_timestamp st > interval
         then st\<lparr>timestamp := now, show_timestamp := now,
                 submitted := submitted st @ [(mp_img, now)]\<rparr>
         else st\<lparr>timestamp := now\<rparr>)"

definition composed_frame :: "tick \<Rightarrow> py_error + image" where
  "composed_frame t =
     (if np_size (drawn_frame_tested t) > 0
      then add_transparent_image (frame t) (drawn_frame_used t)
      else Inr (frame t))"

fun capture_loop :: "int \<Rightarrow> int \<Rightarrow> tick list \<Rightarrow> loop_state \<Rightarrow> loop_state \<times> py_error option" where
  "capture_loop interval fps [] st = (st, None)"
| "capture_loop interval fps (t # ts) st =
     (if \<not> isOpened t then (st, None)
      else if \<not> ret t then (st, None)
      else
        (let st1 = submit_step interval fps t st
         in case composed_frame t of
              Inl e \<Rightarrow> (st1, Some e)
            | Inr composed \<Rightarrow>
                (let st2 = st1\<lparr>shown := shown st1 @ [cv2_flip composed]\<rparr>
                 in if key t AND 255 = 27 then (st2, None)
                    else capture_loop interval fps ts st2)))"

text \<open>The number of frames the loop read successfully before it stopped.\<close>

fun frames_captured :: "tick list \<Rightarrow> nat" where
  "frames_captured [] = 0"
| "frames_captured (t # ts) =
     (if \<not> isOpened t \<or> \<not> ret t then 0
      else if isl (composed_frame t) \<or> key t AND 255 = 27 then 1
      else 1 + frames_captured ts)"

text \<open>The throttle's invariant: the last submission is not in the future, and every
  submission so far accounts for at least one minimum gap of elapsed time.\<close>

definition throttle_inv :: "int \<Rightarrow> loop_state \<Rightarrow> bool" where
  "throttle_inv interval st =
     (show_timestamp st \<le> timestamp st
      \<and> int (length (submitted st)) * interval \<le> show_timestamp st)"

section \<open>The dataset split script (\<open>Model/test.py\<close>)\<close>

text \<open>
  A CSV file as the script writes it (\<open>to_csv(..., index=False)\<close>) is a header and
  rows of cells.  A data frame is its column names and its rows, each row with its index
  label.  \<open>read_csv\<close> labels the rows by their position when every data line has as many
  fields as the header; when the data lines have more fields than the header has names, it
  takes the leading extra fields as the labels (the column names then name the remaining
  fields), and such labels can repeat.  The type of the labels is a parameter.  The model
  keeps a row's label through \<open>concat(ignore_index=True)\<close> and \<open>reset_index\<close> (pandas
  renumbers there, and nothing reads the index afterwards).
\<close>

type_synonym row = "string list"

record csv_file =
  header :: "string list"
  lines :: "row list"

type_synonym 'l frame_rows = "('l \<times> row) list"

record 'l data_frame =
  columns :: "string list"
  labelled_rows :: "'l frame_rows"

definition train_csv :: string where "train_csv = ''train.csv''"
definition test_csv :: string where "test_csv = ''test.csv''"

definition letters :: "string list" where
  "letters = map (\<lambda>ch. [ch]) ''ABCDEFGHIKLMNOPQRSTUVWXY#''"

text \<open>The decimal numeral of \<open>f"{coord}{i}"\<close>.\<close>

fun str_nat :: "nat \<Rightarrow> string" where
  "str_nat n =
     (if n < 10 then [char_of (48 + n)]
      else str_nat (n div 10) @ [char_of (48 + n mod 10)])"

definition expected_cols :: "string list" where
  "expected_cols =
     [''letter'', ''hand''] @
     concat (map (\<lambda>i. map (\<lambda>coord. coord @ str_nat i) [''x'', ''y'', ''z'']) [0..<21])"

text \<open>
  Following the spec's words (section 6): the schema
  \<open>{letter, hand, x0..x20, y0..y20, z0..z20}\<close>, its columns in the order written.
\<close>

definition spec_schema_cols :: "string list" where
  "spec_schema_cols =
     [''letter'', ''hand''] @ map (\<lambda>i. ''x'' @ str_nat i) [0..<21]
       @ map (\<lambda>i. ''y'' @ str_nat i) [0..<21] @ map (\<lambda>i. ''z'' @ str_nat i) [0..<21]"

text \<open>\<open>df["letter"]\<close> of a row: once the column names are validated, its first cell.\<close>

definition letter_of :: "row \<Rightarrow> string" where
  "letter_of r = (case r of [] \<Rightarrow> [] | cell # _ \<Rightarrow> cell)"

text \<open>
  \<open>DataFrame.sample(n=..., random_state=42)\<close> permutes the rows with the seeded generator
  and keeps the first \<open>n\<close>; it raises \<open>ValueError\<close> when \<open>n\<close> exceeds the number of rows.
  The generator's permutation is a parameter.  \<open>DataFrame.drop(labels)\<close> removes every row
  that carries one of these index labels and raises \<open>KeyError\<close> for a label it does not
  find.
\<close>

definition df_sample ::
  "('l frame_rows \<Rightarrow> 'l frame_rows) \<Rightarrow> nat \<Rightarrow> 'l frame_rows \<Rightarrow> py_error + 'l frame_rows" where
  "df_sample shuffle n df = (if length df < n then Inl ValueError else Inr (take n (shuffle df)))"

definition df_drop :: "'l list \<Rightarrow> 'l frame_rows \<Rightarrow> py_error + 'l frame_rows" where
  "df_drop labels df =
     (if list_all (\<lambda>l. l \<in> set (map fst df)) labels
      then Inr (filter (\<lambda>ir. fst ir \<notin> set labels) df)
      else Inl KeyError)"

text \<open>\<open>int(len(letter_data) * 0.8)\<close>: the double nearest to 0.8 lies just above 0.8, and the
  truncated product equals \<open>4 * n div 5\<close> for every row count a table can have.\<close>

definition train_count :: "nat \<Rightarrow> nat" where
  "train_count n = 4 * n div 5"

text \<open>The body of the loop of lines 26 to 34 for one letter.\<close>

definition split_letter ::
  "('l frame_rows \<Rightarrow> 'l frame_rows) \<Rightarrow> 'l frame_rows \<Rightarrow> string
     \<Rightarrow> py_error + 'l frame_rows \<times> 'l frame_rows" where
  "split_letter shuffle df letter =
     (let letter_data = filter (\<lambda>ir. letter_of (snd ir) = letter) df
      in case df_sample shuffle (train_count (length letter_data)) letter_data of
           Inl e \<Rightarrow> Inl e
         | Inr train_sample \<Rightarrow>
             (case df_drop (map fst train_sample) letter_data of
                Inl e \<Rightarrow> Inl e
              | Inr remaining \<Rightarrow>
                  (case df_sample shuffle (length remaining) remaining of
                     Inl e \<Rightarrow> Inl e
                   | Inr test_sample \<Rightarrow> Inr (train_sample, test_sample))))"

fun split_loop ::
  "('l frame_rows \<Rightarrow> 'l frame_rows) \<Rightarrow> 'l frame_rows \<Rightarrow> string list
     \<Rightarrow> 'l frame_rows list \<times> 'l frame_rows list
     \<Rightarrow> py_error + 'l frame_rows list \<times> 'l frame_rows list" where
  "split_loop shuffle df [] acc = Inr acc"
| "split_loop shuffle df (letter # rest) (train_data, test_data) =
     (case split_letter shuffle df letter of
        Inl e \<Rightarrow> Inl e
      | Inr (train_sample, test_sample) \<Rightarrow>
          split_loop shuffle df rest
            (train_data @ [train_sample], test_data @ [test_sample]))"

text \<open>Lines 26 to 40 on the rows of the data frame: the two shuffled frames.\<close>

definition split_rows ::
  "('l frame_rows \<Rightarrow> 'l frame_rows) \<Rightarrow> 'l frame_rows
     \<Rightarrow> py_error + 'l frame_rows \<times> 'l frame_rows" where
  "split_rows shuffle df =
     (case split_loop shuffle df letters ([], []) of
        Inl e \<Rightarrow> Inl e
      | Inr (train_data, test_data) \<Rightarrow>
          Inr (shuffle (concat train_data), shuffle (concat test_data)))"

text \<open>
  The script, given what \<open>pd.read_csv(input_csv)\<close> returned (a data frame, or the
  exception it raised) and the files present: the files after the run and the exception
  that ended it, if any.
\<close>

definition split_dataset ::
  "('l frame_rows \<Rightarrow> 'l frame_rows) \<Rightarrow> py_error + 'l data_frame \<Rightarrow> (string \<rightharpoonup> csv_file)
     \<Rightarrow> (string \<rightharpoonup> csv_file) \<times> py_error option" where
  "split_dataset shuffle read_csv fs =
     (case read_csv of
        Inl e \<Rightarrow> (fs, Some e)
      | Inr df \<Rightarrow>
          if columns df \<noteq> expected_cols then (fs, Some ValueError)
          else
            (case split_rows shuffle (labelled_rows df) of
               Inl e \<Rightarrow> (fs, Some e)
             | Inr (train_df, test_df) \<Rightarrow>
                 (fs(train_csv \<mapsto> \<lparr>header = columns df, lines = map snd train_df\<rparr>,
                     test_csv \<mapsto> \<lparr>header = columns df, lines = map snd test_df\<rparr>),
                  None)))"

text \<open>The number of rows with a given letter.\<close>

definition count_letter :: "string \<Rightarrow> row list \<Rightarrow> nat" where
  "count_letter l rs = length (filter (\<lambda>r. letter_of r = l) rs)"

text \<open>What the seeded generator guarantees: a permutation of the rows it is given.\<close>

definition permutes_rows :: "('l frame_rows \<Rightarrow> 'l frame_rows) \<Rightarrow> bool" where
  "permutes_rows shuffle = (\<forall>df. mset (shuffle df) = mset df)"

section \<open>Concrete inputs for the witnesses\<close>

definition fixture_bg :: image where
  "fixture_bg = \<lparr>nrows = 2, ncols = 2,
                 cells = [[(10, 20, 30), (40, 50, 60)], [(70, 80, 90), (100, 110, 120)]]\<rparr>"

definition fixture_fg :: image where
  "fixture_fg = \<lparr>nrows = 2, ncols = 2,
                 cells = [[(0, 0, 0), (128, 128, 0)], [(255, 255, 255), (0, 0, 1)]]\<rparr>"

text \<open>
  Stand-ins for the collaborators: a scaler that halves a 64-vector and rejects any other
  length, a classifier that knows only the handedness code 0, a skeleton painter that
  needs 21 landmarks, and a text painter.
\<close>

definition fixture_collaborators :: collaborators where
  "fixture_collaborators =
     \<lparr>scaler_transform =
        (\<lambda>v. if length v = 64 then Inr (map (\<lambda>t. t / 2) v) else Inl CollaboratorError),
      classifier_predict = (\<lambda>v. if v ! 0 = 0 then Inr ''A'' else Inl CollaboratorError),
      draw_landmarks =
        (\<lambda>img lms. if length lms = 21 then Inr (map_grid (\<lambda>p. (255, 0, 0)) img)
                    else Inl ValueError),
      putText = (\<lambda>img txt org. Inr (map_grid (\<lambda>(r, g, b). (r, 255, b)) img))\<rparr>"

definition no_hands :: detection_result where
  "no_hands = \<lparr>hand_landmarks = [], hand_world_landmarks = [], handedness = []\<rparr>"

definition fixture_landmark :: landmark where
  "fixture_landmark = \<lparr>lm_x = 1 / 2, lm_y = 1 / 4, lm_z = 0\<rparr>"

definition fixture_hand :: "landmark list" where
  "fixture_hand = replicate 21 fixture_landmark"

definition one_hand :: detection_result where
  "one_hand = \<lparr>hand_landmarks = [fixture_hand], hand_world_landmarks = [fixture_hand],
               handedness = [[\<lparr>index = 0, category_name = ''Right''\<rparr>]]\<rparr>"

definition left_then_right :: detection_result where
  "left_then_right =
     \<lparr>hand_landmarks = [fixture_hand, fixture_hand],
      hand_world_landmarks = [fixture_hand, fixture_hand],
      handedness = [[\<lparr>index = 1, category_name = ''Left''\<rparr>],
                    [\<lparr>index = 0, category_name = ''Right''\<rparr>]]\<rparr>"

definition right_then_left :: detection_result where
  "right_then_left =
     \<lparr>hand_landmarks = [fixture_hand, fixture_hand],
      hand_world_landmarks = [fixture_hand, fixture_hand],
      handedness = [[\<lparr>index = 0, category_name = ''Right''\<rparr>],
                    [\<lparr>index = 1, category_name = ''Left''\<rparr>]]\<rparr>"

definition fixture_shared :: shared where
  "fixture_shared = \<lparr>predictions = [''B''], drawn_frame = fixture_fg\<rparr>"

definition spread_hand :: "landmark list" where
  "spread_hand = replicate 20 fixture_landmark @ [\<lparr>lm_x = 3 / 4, lm_y = 1 / 2, lm_z = 0\<rparr>]"

definition fixture_overlay :: image where
  "fixture_overlay = \<lparr>nrows = 2, ncols = 2,
                       cells = [[(255, 255, 0), (255, 255, 0)], [(255, 255, 0), (255, 255, 0)]]\<rparr>"

definition fixture_tick :: tick where
  "fixture_tick = \<lparr>isOpened = True, ret = True, frame = fixture_bg,
                    drawn_frame_tested = fixture_fg, drawn_frame_used = fixture_fg, key = - 1\<rparr>"

definition two_right_hands :: detection_result where
  "two_right_hands =
     \<lparr>hand_landmarks = [fixture_hand, fixture_hand],
      hand_world_landmarks = [fixture_hand, fixture_hand],
      handedness = [[\<lparr>index = 0, category_name = ''Right''\<rparr>],
                    [\<lparr>index = 0, category_name = ''Right''\<rparr>]]\<rparr>"

text \<open>
  Stand-ins that draw where they are told: the skeleton painter marks each landmark's
  scaled pixel in red, the text painter marks the anchor pixel in a colour that depends on
  the text.  The hand for them has two different x and two different y coordinates.
\<close>

definition paint :: "image \<Rightarrow> int \<times> int \<Rightarrow> pixel \<Rightarrow> image" where
  "paint img xy colour =
     (case xy of (x, y) \<Rightarrow>
        if 0 \<le> x \<and> x < int (ncols img) \<and> 0 \<le> y \<and> y < int (nrows img)
        then img\<lparr>cells := (cells img)[nat y := (cells img ! nat y)[nat x := colour]]\<rparr>
        else img)"

definition painter_collaborators :: collaborators where
  "painter_collaborators =
     \<lparr>scaler_transform = Inr,
      classifier_predict = (\<lambda>v. Inr ''A''),
      draw_landmarks =
        (\<lambda>img lms. if length lms = 21
                    then Inr (fold (\<lambda>l im. paint im (scaled_x (ncols im) l, scaled_y (nrows im) l)
                                              (255, 0, 0)) lms img)
                    else Inl ValueError),
      putText = (\<lambda>img txt org. Inr (paint img org (0, 255, of_nat (length txt))))\<rparr>"

definition wide_hand :: "landmark list" where
  "wide_hand = replicate 20 \<lparr>lm_x = 1 / 12, lm_y = 11 / 12, lm_z = 0\<rparr>
                 @ [\<lparr>lm_x = 1 / 6, lm_y = 5 / 6, lm_z = 0\<rparr>]"

definition wide_overlay :: image where
  "wide_overlay =
     \<lparr>nrows = 12, ncols = 12,
      cells = (replicate 12 (replicate 12 (0, 0, 0)))
                [0 := (replicate 12 (0, 0, 0))[11 := (0, 255, 1)],
                 10 := (replicate 12 (0, 0, 0))[2 := (255, 0, 0)],
                 11 := (replicate 12 (0, 0, 0))[1 := (255, 0, 0)]]\<rparr>"

text \<open>
  Data frames for the split script, their rows labelled by position unless said
  otherwise: one whose column names are in the order the spec lists them, one whose first
  two column names are swapped, one with five rows of letter A, one with a single row of
  letter J, and one with five rows of letter A that all carry the same label.
\<close>

definition a_row :: "string \<Rightarrow> row" where
  "a_row k = ''A'' # k # replicate 63 ''0''"

definition five_a_rows :: "row list" where
  "five_a_rows = [a_row ''0'', a_row ''1'', a_row ''2'', a_row ''3'', a_row ''4'']"

definition spec_order_frame :: "nat data_frame" where
  "spec_order_frame = \<lparr>columns = spec_schema_cols, labelled_rows = enumerate 0 five_a_rows\<rparr>"

definition swapped_frame :: "nat data_frame" where
  "swapped_frame = \<lparr>columns = ''hand'' # ''letter'' # drop 2 expected_cols,
                     labelled_rows = enumerate 0 five_a_rows\<rparr>"

definition a_frame :: "nat data_frame" where
  "a_frame = \<lparr>columns = expected_cols, labelled_rows = enumerate 0 five_a_rows\<rparr>"

definition j_frame :: "nat data_frame" where
  "j_frame = \<lparr>columns = expected_cols, labelled_rows = [(0, ''J'' # replicate 64 ''0'')]\<rparr>"

definition same_label_frame :: "string data_frame" where
  "same_label_frame = \<lparr>columns = expected_cols,
                        labelled_rows = map (\<lambda>r. (''s1'', r)) five_a_rows\<rparr>"

section \<open>The compositor\<close>

lemma channel_sum_unat:
  "unat (channel_sum (c0, c1, c2)) = unat c0 + unat c1 + unat c2"
proof -
  have b: "unat c0 < 256" "unat c1 < 256" "unat c2 < 256"
    using unsigned_less [of c0, where 'a = nat] unsigned_less [of c1, where 'a = nat]
      unsigned_less [of c2, where 'a = nat] by simp_all
  then show ?thesis
    by (simp add: channel_sum_def unat_word_ariths unsigned_ucast_eq take_bit_eq_mod)
qed

lemma channel_sum_pos: "(channel_sum p > 0) = is_foreground p"
  by (cases p) (simp add: word_less_nat_alt channel_sum_unat is_foreground_def)

lemma blend_select:
  "add_px (scale_px b (1 - alpha_of f)) (scale_px f (alpha_of f)) = select_px b f"
  by (cases b; cases f)
     (simp add: add_px_def scale_px_def select_px_def alpha_of_def channel_sum_pos)

lemma stretch_same: "length xs = n \<Longrightarrow> stretch n xs = xs"
  by (cases xs rule: list.exhaust; cases "tl xs") (auto simp: stretch_def split: list.splits)

lemma map2_rows_cong:
  assumes "list_all (\<lambda>r. length r = w) xs" "list_all (\<lambda>r. length r = w) ys"
  shows "map2 (\<lambda>ra rb. map2 f (stretch w ra) (stretch w rb)) xs ys = map2 (map2 f) xs ys"
proof (intro map_cong [OF refl])
  fix p assume pin: "p \<in> set (zip xs ys)"
  obtain a b where p: "p = (a, b)" by (cases p)
  from pin p have "a \<in> set xs" "b \<in> set ys"
    by (auto dest: set_zip_leftD set_zip_rightD)
  with assms have "length a = w" "length b = w"
    by (simp_all add: list_all_iff)
  then show "(case p of (ra, rb) \<Rightarrow> map2 f (stretch w ra) (stretch w rb)) =
             (case p of (ra, rb) \<Rightarrow> map2 f ra rb)"
    by (simp add: p stretch_same)
qed

lemma broadcast2_same_shape:
  assumes "wf_grid A" "wf_grid B" "nrows A = nrows B" "ncols A = ncols B"
  shows "broadcast2 f A B =
           Inr \<lparr>nrows = nrows A, ncols = ncols A, cells = map2 (map2 f) (cells A) (cells B)\<rparr>"
  using assms
  by (simp add: broadcast2_def broadcast_dim_def wf_grid_def stretch_same map2_rows_cong)

lemma wf_map_grid: "wf_grid A \<Longrightarrow> wf_grid (map_grid f A)"
  by (simp add: wf_grid_def map_grid_def list_all_iff)

lemma list_all_map2:
  assumes "list_all (\<lambda>r. length r = w) xs" "list_all (\<lambda>r. length r = w) ys"
  shows "list_all (\<lambda>r. length r = w) (map2 (map2 f) xs ys)"
  using assms
proof (induction xs arbitrary: ys)
  case Nil
  then show ?case by simp
next
  case (Cons x xs)
  then show ?case by (cases ys) simp_all
qed

lemma wf_map2_grid:
  assumes "wf_grid A" "wf_grid B" "nrows A = nrows B" "ncols A = ncols B"
  shows "wf_grid \<lparr>nrows = nrows A, ncols = ncols A, cells = map2 (map2 f) (cells A) (cells B)\<rparr>"
  using assms by (simp add: wf_grid_def list_all_map2)

lemma blend_row:
  "map2 add_px (map2 scale_px b (map (\<lambda>p. 1 - alpha_of p) f))
                (map2 scale_px f (map alpha_of f)) = map2 select_px b f"
proof (induction b arbitrary: f)
  case Nil
  then show ?case by simp
next
  case (Cons p b)
  then show ?case by (cases f) (simp_all add: blend_select)
qed

lemma blend_rows:
  "map2 (map2 add_px)
     (map2 (map2 scale_px) bg (map (map (\<lambda>p. 1 - alpha_of p)) fg))
     (map2 (map2 scale_px) fg (map (map alpha_of) fg)) = map2 (map2 select_px) bg fg"
proof (induction bg arbitrary: fg)
  case Nil
  then show ?case by simp
next
  case (Cons r bg)
  then show ?case by (cases fg) (simp_all add: blend_row)
qed

lemma composite_same_shape:
  assumes "wf_grid bg" "wf_grid fg" "nrows bg = nrows fg" "ncols bg = ncols fg"
  shows "add_transparent_image bg fg =
           Inr \<lparr>nrows = nrows bg, ncols = ncols bg,
                cells = map2 (map2 select_px) (cells bg) (cells fg)\<rparr>"
proof -
  let ?alpha = "map_grid alpha_of fg"
  let ?inv = "map_grid (\<lambda>a. 1 - a) ?alpha"
  have wa: "wf_grid ?alpha" and wi: "wf_grid ?inv"
    using assms(2) by (simp_all add: wf_map_grid)
  have da: "nrows ?alpha = nrows fg" "ncols ?alpha = ncols fg"
    and di: "nrows ?inv = nrows fg" "ncols ?inv = ncols fg"
    by (simp_all add: map_grid_def)
  let ?bgp = "\<lparr>nrows = nrows bg, ncols = ncols bg,
                cells = map2 (map2 scale_px) (cells bg) (cells ?inv)\<rparr>"
  let ?fgp = "\<lparr>nrows = nrows fg, ncols = ncols fg,
                cells = map2 (map2 scale_px) (cells fg) (cells ?alpha)\<rparr>"
  have b1: "broadcast2 scale_px bg ?inv = Inr ?bgp"
    using assms wi di by (simp add: broadcast2_same_shape)
  have b2: "broadcast2 scale_px fg ?alpha = Inr ?fgp"
    using assms wa da by (simp add: broadcast2_same_shape)
  have w1: "wf_grid ?bgp"
    using wf_map2_grid [OF assms(1) wi] assms di by simp
  have w2: "wf_grid ?fgp"
    using wf_map2_grid [OF assms(2) wa] da by simp
  have b3: "broadcast2 add_px ?bgp ?fgp =
              Inr \<lparr>nrows = nrows bg, ncols = ncols bg,
                   cells = map2 (map2 add_px) (cells ?bgp) (cells ?fgp)\<rparr>"
    using w1 w2 assms by (simp add: broadcast2_same_shape)
  have "cells ?inv = map (map (\<lambda>p. 1 - alpha_of p)) (cells fg)"
    and "cells ?alpha = map (map alpha_of) (cells fg)"
    by (simp_all add: map_grid_def)
  then have "map2 (map2 add_px) (cells ?bgp) (cells ?fgp) = map2 (map2 select_px) (cells bg) (cells fg)"
    by (simp only: grid.simps blend_rows)
  with b1 b2 b3 show ?thesis
    by (simp add: add_transparent_image_def Let_def)
qed

lemma select_px_zero: "select_px b (0, 0, 0) = b"
  by (simp add: select_px_def is_foreground_def)

lemma select_zero_row: "map2 select_px r (replicate (length r) (0, 0, 0)) = r"
  by (induction r) (simp_all add: select_px_zero)

lemma select_zero_rows:
  "list_all (\<lambda>r. length r = w) rs \<Longrightarrow>
   map2 (map2 select_px) rs (replicate (length rs) (replicate w (0, 0, 0))) = rs"
  by (induction rs) (auto simp: select_zero_row)

lemma wf_np_zeros: "wf_grid (np_zeros h w)"
  by (simp add: wf_grid_def np_zeros_def list_all_iff)

lemma composite_zeros:
  assumes "wf_grid bg"
  shows "add_transparent_image bg (np_zeros (nrows bg) (ncols bg)) = Inr bg"
proof -
  have "add_transparent_image bg (np_zeros (nrows bg) (ncols bg)) =
          Inr \<lparr>nrows = nrows bg, ncols = ncols bg,
               cells = map2 (map2 select_px) (cells bg)
                         (cells (np_zeros (nrows bg) (ncols bg)))\<rparr>"
    by (rule composite_same_shape) (simp_all add: assms wf_np_zeros, simp_all add: np_zeros_def)
  moreover have "map2 (map2 select_px) (cells bg) (cells (np_zeros (nrows bg) (ncols bg))) = cells bg"
    using assms select_zero_rows [of "ncols bg" "cells bg"]
    by (simp add: wf_grid_def np_zeros_def)
  ultimately show ?thesis by simp
qed

text \<open>
  Claim C4.  For two well-formed images of the same height and width,
  \<open>add_transparent_image\<close> returns a new array, stored in a fresh cell, in which every
  pixel is the overlay's pixel where the sum of the overlay's three channels is greater
  than zero and the background's pixel elsewhere; the cells holding the two inputs are
  what they were.
\<close>

theorem add_transparent_image_per_pixel:
  assumes "b < length hp" "f < length hp" "wf_grid (hp ! b)" "wf_grid (hp ! f)"
    and "nrows (hp ! b) = nrows (hp ! f)" "ncols (hp ! b) = ncols (hp ! f)"
  shows "\<exists>out. add_transparent_image_at hp b f = Inr (hp @ [out], length hp)
           \<and> out = \<lparr>nrows = nrows (hp ! b), ncols = ncols (hp ! b),
                     cells = map2 (map2 (\<lambda>bp fp. if is_foreground fp then fp else bp))
                               (cells (hp ! b)) (cells (hp ! f))\<rparr>
           \<and> (hp @ [out]) ! b = hp ! b \<and> (hp @ [out]) ! f = hp ! f"
proof -
  have "select_px = (\<lambda>bp fp. if is_foreground fp then fp else bp)"
    by (intro ext) (simp add: select_px_def)
  then show ?thesis
    using composite_same_shape [OF assms(3-6)] assms(1,2)
    by (simp add: add_transparent_image_at_def nth_append)
qed

theorem add_transparent_image_per_pixel_witness:
  "add_transparent_image_at [fixture_bg, fixture_fg] 0 1 =
     Inr ([fixture_bg, fixture_fg,
           \<lparr>nrows = 2, ncols = 2,
            cells = [[(10, 20, 30), (128, 128, 0)], [(255, 255, 255), (0, 0, 1)]]\<rparr>], 2)"
  using add_transparent_image_per_pixel [of 0 "[fixture_bg, fixture_fg]" 1]
  by (simp add: fixture_bg_def fixture_fg_def wf_grid_def is_foreground_def)

text \<open>
  Claim C5.  Compositing the all-zero overlay of a well-formed background's dimensions
  returns the background; and \<open>draw_landmarks_on_image\<close> on a detection result with no
  hands returns that all-zero overlay, so rendering nothing and compositing gives the
  background back.
\<close>

theorem composite_zero_overlay:
  assumes "wf_grid bg"
  shows "add_transparent_image bg (np_zeros (nrows bg) (ncols bg)) = Inr bg
         \<and> (hand_landmarks r = [] \<and> nrows rgb = nrows bg \<and> ncols rgb = ncols bg \<longrightarrow>
              draw_landmarks_on_image c rgb r preds = Inr (np_zeros (nrows bg) (ncols bg))
              \<and> add_transparent_image bg (np_zeros (nrows bg) (ncols bg)) = Inr bg)"
  using composite_zeros [OF assms] by (simp add: draw_landmarks_on_image_def)

theorem composite_zero_overlay_witness:
  "add_transparent_image fixture_bg (np_zeros 2 2) = Inr fixture_bg
   \<and> draw_landmarks_on_image fixture_collaborators fixture_fg no_hands [] = Inr (np_zeros 2 2)"
  using composite_zero_overlay [of fixture_bg no_hands fixture_fg fixture_collaborators "[]"]
  by (simp add: fixture_bg_def fixture_fg_def wf_grid_def no_hands_def)

section \<open>The detection callback\<close>

lemma length_flatten_landmarks: "length (flatten_landmarks lms) = 3 * length lms"
  by (induction lms) (simp_all add: flatten_landmarks_def)

text \<open>
  Claim C2, as the code has it.  The feature row of a hand with \<open>n\<close> landmarks has
  \<open>1 + 3 * n\<close> entries, the handedness code first; for 21 landmarks that is 64.  The
  encoding step has no failure of its own: for any other landmark count it yields a row of
  another length (whether the scaler then accepts the row is the scaler's matter).
\<close>

theorem encode_length:
  "length (encode h lms) = 1 + 3 * length lms
   \<and> (length lms = 21 \<longrightarrow> length (encode h lms) = 64)"
  by (simp add: encode_def length_flatten_landmarks)

theorem encode_length_witness: "length (encode 1 fixture_hand) = 64"
  using encode_length [of 1 fixture_hand] by (simp add: fixture_hand_def)

text \<open>A hand with a single landmark is encoded to a row of four values, and with a scaler
  that accepts every row the callback's per-hand step classifies it.\<close>

theorem encode_short_hand_counterexample:
  "encode 0 [fixture_landmark] = [0, 1 / 2, 1 / 4, 0]
   \<and> classify_hand (fixture_collaborators\<lparr>scaler_transform := Inr\<rparr>)
         [[\<lparr>index = 0, category_name = ''Right''\<rparr>]] 0 [fixture_landmark] = Inr ''A''"
  by (simp add: encode_def flatten_landmarks_def fixture_landmark_def classify_hand_def
      handedness_index_def fixture_collaborators_def)

lemma hands_loop_Inr:
  "classify_hand c hs idx lms = Inr p \<Longrightarrow>
   hands_loop c hs idx (lms # rest) s =
     (s\<lparr>predictions := predictions s @ [p]\<rparr>
        # fst (hands_loop c hs (Suc idx) rest (s\<lparr>predictions := predictions s @ [p]\<rparr>)),
      snd (hands_loop c hs (Suc idx) rest (s\<lparr>predictions := predictions s @ [p]\<rparr>)))"
  by (simp add: Let_def case_prod_beta)

lemma hands_loop_Inl:
  "classify_hand c hs idx lms = Inl e \<Longrightarrow> hands_loop c hs idx (lms # rest) s = ([], Some e)"
  by simp

lemma hands_loop_fail:
  assumes "k < length hands" "length ps = k"
    and "\<forall>j<k. classify_hand c hs (idx + j) (hands ! j) = Inr (ps ! j)"
    and "classify_hand c hs (idx + k) (hands ! k) = Inl e"
  shows "snd (hands_loop c hs idx hands s) = Some e
         \<and> last (s # fst (hands_loop c hs idx hands s)) = s\<lparr>predictions := predictions s @ ps\<rparr>"
  using assms
proof (induction hands arbitrary: idx s k ps)
  case Nil
  then show ?case by simp
next
  case (Cons lms rest)
  show ?case
  proof (cases k)
    case 0
    with Cons.prems show ?thesis by (simp add: hands_loop_Inl)
  next
    case (Suc k')
    with Cons.prems obtain p ps' where ps: "ps = p # ps'" "length ps' = k'"
      by (cases ps) auto
    from Cons.prems(3) Suc have c0: "classify_hand c hs idx lms = Inr p"
      using ps by (auto dest: spec [of _ 0])
    let ?s' = "s\<lparr>predictions := predictions s @ [p]\<rparr>"
    have step: "\<forall>j<k'. classify_hand c hs (Suc idx + j) (rest ! j) = Inr (ps' ! j)"
    proof (intro allI impI)
      fix j assume "j < k'"
      then have "Suc j < k" using Suc by simp
      with Cons.prems(3) have "classify_hand c hs (idx + Suc j) ((lms # rest) ! Suc j) = Inr (ps ! Suc j)"
        by blast
      then show "classify_hand c hs (Suc idx + j) (rest ! j) = Inr (ps' ! j)"
        by (simp add: ps)
    qed
    have fl: "classify_hand c hs (Suc idx + k') (rest ! k') = Inl e"
      using Cons.prems(4) Suc by simp
    have "k' < length rest" using Cons.prems(1) Suc by simp
    from Cons.IH [OF this ps(2) step fl, of ?s']
    show ?thesis
      using ps by (simp add: hands_loop_Inr [OF c0] del: hands_loop.simps)
  qed
qed

lemma classify_fixture_right:
  "classify_hand fixture_collaborators ([\<lparr>index = 0, category_name = n\<rparr>] # hs) 0 fixture_hand = Inr ''A''"
  by (simp add: classify_hand_def handedness_index_def fixture_collaborators_def encode_def
      length_flatten_landmarks fixture_hand_def)

lemma classify_fixture_left:
  "classify_hand fixture_collaborators ([\<lparr>index = 1, category_name = n\<rparr>] # hs) 0 fixture_hand
     = Inl CollaboratorError"
  by (simp add: classify_hand_def handedness_index_def fixture_collaborators_def encode_def
      length_flatten_landmarks fixture_hand_def)

lemma classify_fixture_right1:
  "classify_hand fixture_collaborators [h, [\<lparr>index = 0, category_name = n\<rparr>]] (Suc 0) fixture_hand = Inr ''A''"
  by (simp add: classify_hand_def handedness_index_def fixture_collaborators_def encode_def
      length_flatten_landmarks fixture_hand_def)

lemma classify_fixture_left1:
  "classify_hand fixture_collaborators [h, [\<lparr>index = 1, category_name = n\<rparr>]] (Suc 0) fixture_hand
     = Inl CollaboratorError"
  by (simp add: classify_hand_def handedness_index_def fixture_collaborators_def encode_def
      length_flatten_landmarks fixture_hand_def)

text \<open>
  Claim C3, as the code has it.  When the hands before the \<open>k\<close>-th are classified and
  the \<open>k\<close>-th raises, the single handler around the whole body ends the callback: the
  exception is printed, \<open>predictions\<close> holds the labels of the hands before the
  \<open>k\<close>-th and nothing of the later ones, nothing is rendered, and \<open>drawn_frame\<close> is
  the previous overlay.
\<close>

theorem print_result_aborts_on_failure:
  assumes "k < length (hand_world_landmarks r)" "length ps = k"
    and "\<forall>j<k. classify_hand c (handedness r) j (hand_world_landmarks r ! j) = Inr (ps ! j)"
    and "classify_hand c (handedness r) k (hand_world_landmarks r ! k) = Inl e"
  shows "snd (print_result_trace c s r img) = Some e
         \<and> print_result c s r img = \<lparr>predictions = ps, drawn_frame = drawn_frame s\<rparr>"
proof -
  let ?s0 = "s\<lparr>predictions := []\<rparr>"
  let ?run = "hands_loop c (handedness r) 0 (hand_world_landmarks r) ?s0"
  have "snd ?run = Some e \<and> last (?s0 # fst ?run) = ?s0\<lparr>predictions := predictions ?s0 @ ps\<rparr>"
    by (rule hands_loop_fail [OF assms(1,2)]) (simp_all add: assms)
  then show ?thesis
    by (simp add: print_result_def print_result_trace_def Let_def case_prod_beta)
qed

theorem print_result_aborts_on_failure_witness:
  "snd (print_result_trace fixture_collaborators fixture_shared right_then_left fixture_bg)
     = Some CollaboratorError
   \<and> print_result fixture_collaborators fixture_shared right_then_left fixture_bg
     = \<lparr>predictions = [''A''], drawn_frame = fixture_fg\<rparr>"
  using print_result_aborts_on_failure [of 1 right_then_left "[''A'']" fixture_collaborators
      CollaboratorError fixture_shared fixture_bg]
  by (simp add: right_then_left_def fixture_shared_def classify_fixture_right classify_fixture_left1)

theorem print_result_skips_later_hands_counterexample:
  "classify_hand fixture_collaborators (handedness left_then_right) 1
       (hand_world_landmarks left_then_right ! 1) = Inr ''A''
   \<and> print_result fixture_collaborators fixture_shared left_then_right fixture_bg
       = \<lparr>predictions = [], drawn_frame = fixture_fg\<rparr>
   \<and> predictions fixture_shared = [''B'']"
  by (simp add: left_then_right_def fixture_shared_def classify_fixture_right1
      classify_fixture_left print_result_def print_result_trace_def)

lemma hands_loop_states:
  assumes "length ps \<le> length hands"
    and "\<forall>j<length ps. classify_hand c hs (idx + j) (hands ! j) = Inr (ps ! j)"
    and "length ps < length hands \<longrightarrow>
           classify_hand c hs (idx + length ps) (hands ! length ps) = Inl e"
  shows "hands_loop c hs idx hands s =
           (map (\<lambda>k. s\<lparr>predictions := predictions s @ take k ps\<rparr>) [Suc 0..<Suc (length ps)],
            if length ps < length hands then Some e else None)"
  using assms
proof (induction hands arbitrary: idx s ps)
  case Nil
  then show ?case by simp
next
  case (Cons lms rest)
  show ?case
  proof (cases ps)
    case Nil
    with Cons.prems show ?thesis by (simp add: hands_loop_Inl)
  next
    case (Cons p ps')
    from Cons.prems(2) Cons have c0: "classify_hand c hs idx lms = Inr p"
      by (auto dest: spec [of _ 0])
    let ?s' = "s\<lparr>predictions := predictions s @ [p]\<rparr>"
    have len: "length ps' \<le> length rest" using Cons.prems(1) Cons by simp
    have step: "\<forall>j<length ps'. classify_hand c hs (Suc idx + j) (rest ! j) = Inr (ps' ! j)"
    proof (intro allI impI)
      fix j assume "j < length ps'"
      then have "Suc j < length ps" using Cons by simp
      with Cons.prems(2)
      have "classify_hand c hs (idx + Suc j) ((lms # rest) ! Suc j) = Inr (ps ! Suc j)"
        by blast
      then show "classify_hand c hs (Suc idx + j) (rest ! j) = Inr (ps' ! j)"
        by (simp add: Cons)
    qed
    have fl: "length ps' < length rest \<longrightarrow>
                classify_hand c hs (Suc idx + length ps') (rest ! length ps') = Inl e"
      using Cons.prems(3) Cons by simp
    have ih: "hands_loop c hs (Suc idx) rest ?s' =
           (map (\<lambda>k. ?s'\<lparr>predictions := predictions ?s' @ take k ps'\<rparr>) [Suc 0..<Suc (length ps')],
            if length ps' < length rest then Some e else None)"
      by (rule Cons.IH [OF len step fl])
    have "[Suc 0..<Suc (Suc (length ps'))] = Suc 0 # [Suc (Suc 0)..<Suc (Suc (length ps'))]"
      by (rule upt_conv_Cons) simp
    then have "[Suc 0..<Suc (length ps)] = Suc 0 # map Suc [Suc 0..<Suc (length ps')]"
      by (simp only: Cons list.size map_Suc_upt) simp
    then have "map (\<lambda>k. s\<lparr>predictions := predictions s @ take k ps\<rparr>) [Suc 0..<Suc (length ps)]
                 = ?s' # map (\<lambda>k. ?s'\<lparr>predictions := predictions ?s' @ take k ps'\<rparr>)
                           [Suc 0..<Suc (length ps')]"
      by (simp add: Cons comp_def del: upt_Suc)
    then show ?thesis
      using ih Cons by (simp add: hands_loop_Inr [OF c0] del: hands_loop.simps upt_Suc)
  qed
qed

lemma classified_prefix_from:
  "\<exists>ps e. length ps \<le> length hands
     \<and> (\<forall>j<length ps. classify_hand c hs (idx + j) (hands ! j) = Inr (ps ! j))
     \<and> (length ps < length hands \<longrightarrow>
           classify_hand c hs (idx + length ps) (hands ! length ps) = Inl e)"
proof (induction hands arbitrary: idx)
  case Nil
  show ?case by (rule exI [of _ "[]"]) simp
next
  case (Cons lms rest)
  show ?case
  proof (cases "classify_hand c hs idx lms")
    case (Inl e)
    then show ?thesis by (intro exI [of _ "[]"] exI [of _ e]) simp
  next
    case (Inr p)
    obtain ps e where ps: "length ps \<le> length rest"
      "\<forall>j<length ps. classify_hand c hs (Suc idx + j) (rest ! j) = Inr (ps ! j)"
      "length ps < length rest \<longrightarrow>
         classify_hand c hs (Suc idx + length ps) (rest ! length ps) = Inl e"
      using Cons [of "Suc idx"] by blast
    have "\<forall>j<length (p # ps). classify_hand c hs (idx + j) ((lms # rest) ! j) = Inr ((p # ps) ! j)"
    proof (intro allI impI)
      fix j assume j: "j < length (p # ps)"
      show "classify_hand c hs (idx + j) ((lms # rest) ! j) = Inr ((p # ps) ! j)"
      proof (cases j)
        case 0
        then show ?thesis using Inr by simp
      next
        case (Suc j')
        then show ?thesis using ps(2) j by simp
      qed
    qed
    with ps(1,3) show ?thesis
      by (intro exI [of _ "p # ps"] exI [of _ e]) simp
  qed
qed

text \<open>
  Claim C1, as the code has it.  The callback writes the two globals one after the other,
  and its writes are these, in this order: it resets \<open>predictions\<close>; it appends the
  labels \<open>ps\<close> of the classified hands one by one, so that the list is \<open>take k ps\<close>
  after the \<open>k\<close>-th append, while \<open>drawn_frame\<close> is still the previous overlay; and,
  when no hand failed and the rendering of the final list \<open>ps\<close> succeeds, it replaces
  \<open>drawn_frame\<close> once, as its last write, by that rendering.  When a hand fails or the
  rendering raises, the exception is reported and \<open>drawn_frame\<close> is never written.  For
  every detection result there are such \<open>ps\<close> and \<open>e\<close>.  A reader of \<open>drawn_frame\<close>
  alone, as the capture loop is, therefore sees the previous complete overlay or the next
  complete one; a reader of both globals sees new predictions with the previous overlay.
\<close>

theorem print_result_writes:
  "(classified_prefix c r ps e \<longrightarrow>
      print_result_trace c s r img =
        (let before = map (\<lambda>k. \<lparr>predictions = take k ps, drawn_frame = drawn_frame s\<rparr>)
                        [0..<Suc (length ps)]
         in if length ps < length (hand_world_landmarks r) then (before, Some e)
            else (case draw_landmarks_on_image c img r ps of
                    Inl e' \<Rightarrow> (before, Some e')
                  | Inr new \<Rightarrow> (before @ [\<lparr>predictions = ps, drawn_frame = new\<rparr>], None))))
   \<and> (\<exists>qs e'. classified_prefix c r qs e')"
proof (intro conjI impI)
  show "\<exists>qs e'. classified_prefix c r qs e'"
    using classified_prefix_from [of "hand_world_landmarks r" c "handedness r" 0]
    by (simp add: classified_prefix_def)
next
  assume cp: "classified_prefix c r ps e"
  let ?s0 = "s\<lparr>predictions := []\<rparr>"
  let ?before = "map (\<lambda>k. \<lparr>predictions = take k ps, drawn_frame = drawn_frame s\<rparr>)
                   [0..<Suc (length ps)]"
  have run: "hands_loop c (handedness r) 0 (hand_world_landmarks r) ?s0 =
           (map (\<lambda>k. ?s0\<lparr>predictions := predictions ?s0 @ take k ps\<rparr>) [Suc 0..<Suc (length ps)],
            if length ps < length (hand_world_landmarks r) then Some e else None)"
    using cp by (intro hands_loop_states) (simp_all add: classified_prefix_def)
  have "[0..<Suc (length ps)] = 0 # [Suc 0..<Suc (length ps)]"
    by (rule upt_conv_Cons) simp
  then have before: "?s0 # map (\<lambda>k. ?s0\<lparr>predictions := predictions ?s0 @ take k ps\<rparr>)
                            [Suc 0..<Suc (length ps)] = ?before"
    by (simp del: upt_Suc)
  have "last ?before = \<lparr>predictions = take (length ps) ps, drawn_frame = drawn_frame s\<rparr>"
    by (simp add: last_map del: upt_Suc)
  then have last: "last ?before = \<lparr>predictions = ps, drawn_frame = drawn_frame s\<rparr>"
    by simp
  have before_n: "s\<lparr>predictions := []\<rparr>
                    # map (\<lambda>k. s\<lparr>predictions := take k ps\<rparr>) [Suc 0..<Suc (length ps)]
                  = ?before"
    using before by (simp del: upt_Suc)
  show "print_result_trace c s r img =
        (let before = ?before
         in if length ps < length (hand_world_landmarks r) then (before, Some e)
            else (case draw_landmarks_on_image c img r ps of
                    Inl e' \<Rightarrow> (before, Some e')
                  | Inr new \<Rightarrow> (before @ [\<lparr>predictions = ps, drawn_frame = new\<rparr>], None)))"
    unfolding print_result_trace_def Let_def run case_prod_conv before last
    by (simp add: before_n split: sum.splits del: upt_Suc)
qed

section \<open>The overlay renderer\<close>

lemma py_max_Max: "xs \<noteq> [] \<Longrightarrow> py_max xs = Inr (Max (set xs))"
  by (cases xs) (simp_all add: py_max_def Max.set_eq_fold [symmetric])

lemma py_min_Min: "xs \<noteq> [] \<Longrightarrow> py_min xs = Inr (Min (set xs))"
  by (cases xs) (simp_all add: py_min_def Min.set_eq_fold [symmetric])

lemma text_org_Max_Min:
  assumes "hand \<noteq> []"
  shows "text_org h w hand =
           Inr (int w - (py_int (Max (lm_x ` set hand) * real w) + MARGIN),
                py_int (Min (lm_y ` set hand) * real h) - MARGIN)"
  using assms by (simp add: text_org_def py_max_Max py_min_Min)

lemma spread_nonempty: "spread_hand \<noteq> []"
  by (simp add: spread_hand_def)

lemma spread_x: "lm_x ` set spread_hand = {1 / 2, 3 / 4}"
  by (auto simp add: spread_hand_def fixture_landmark_def)

lemma spread_y: "lm_y ` set spread_hand = {1 / 4, 1 / 2}"
  by (auto simp add: spread_hand_def fixture_landmark_def)

lemma text_org_spread_hand: "text_org 100 100 spread_hand = Inr (15, 15)"
  by (simp add: text_org_Max_Min [OF spread_nonempty] spread_x spread_y py_int_def MARGIN_def)

lemma fixture_nonempty: "fixture_hand \<noteq> []"
  by (simp add: fixture_hand_def)

lemma fixture_x: "lm_x ` set fixture_hand = {1 / 2}"
  by (auto simp add: fixture_hand_def fixture_landmark_def)

lemma fixture_y: "lm_y ` set fixture_hand = {1 / 4}"
  by (auto simp add: fixture_hand_def fixture_landmark_def)

lemma text_org_fixture_hand: "text_org 2 2 fixture_hand = Inr (- 9, - 10)"
  by (simp add: text_org_Max_Min [OF fixture_nonempty] fixture_x fixture_y py_int_def MARGIN_def)

lemma cv2_flip_flip: "cv2_flip (cv2_flip img) = img"
  by (simp add: cv2_flip_def rev_map [symmetric] comp_def)

lemma np_zeros_2_2:
  "np_zeros 2 2 = \<lparr>nrows = 2, ncols = 2, cells = [[(0, 0, 0), (0, 0, 0)], [(0, 0, 0), (0, 0, 0)]]\<rparr>"
  by (simp add: np_zeros_def numeral_2_eq_2)

lemma length_fixture_hand: "length fixture_hand = 21"
  by (simp add: fixture_hand_def)

lemma draw_fixture_hand:
  "draw_hands fixture_collaborators 2 2 [''A''] 0 [fixture_hand] (np_zeros 2 2) = Inr fixture_overlay"
  by (simp add: text_org_fixture_hand np_zeros_2_2 fixture_collaborators_def length_fixture_hand
      map_grid_def cv2_flip_def fixture_overlay_def)

lemma py_int_mono:
  assumes "r \<le> s"
  shows "py_int r \<le> py_int s"
proof (cases "r < 0")
  case True
  show ?thesis
  proof (cases "s < 0")
    case True
    with \<open>r < 0\<close> assms show ?thesis by (simp add: py_int_def ceiling_mono)
  next
    case False
    have "\<lceil>r\<rceil> \<le> 0" using \<open>r < 0\<close> by (simp add: ceiling_le_zero)
    moreover have "0 \<le> \<lfloor>s\<rfloor>" using False by simp
    ultimately have "\<lceil>r\<rceil> \<le> \<lfloor>s\<rfloor>" by (rule order_trans)
    then show ?thesis using \<open>r < 0\<close> False by (simp only: py_int_def if_True if_False)
  qed
next
  case False
  then have "\<not> s < 0" using assms by simp
  with False assms show ?thesis by (simp add: py_int_def floor_mono)
qed

lemma scaled_x_Max:
  assumes "hand \<noteq> []"
  shows "py_int (Max (lm_x ` set hand) * real w) = Max (scaled_x w ` set hand)"
proof -
  have "mono (\<lambda>x. py_int (x * real w))"
    by (intro monoI py_int_mono mult_right_mono) simp_all
  then have "py_int (Max (lm_x ` set hand) * real w)
               = Max ((\<lambda>x. py_int (x * real w)) ` lm_x ` set hand)"
    using assms by (intro mono_Max_commute) simp_all
  also have "(\<lambda>x. py_int (x * real w)) ` lm_x ` set hand = scaled_x w ` set hand"
    by (simp add: image_image scaled_x_def)
  finally show ?thesis .
qed

lemma scaled_y_Min:
  assumes "hand \<noteq> []"
  shows "py_int (Min (lm_y ` set hand) * real h) = Min (scaled_y h ` set hand)"
proof -
  have "mono (\<lambda>y. py_int (y * real h))"
    by (intro monoI py_int_mono mult_right_mono) simp_all
  then have "py_int (Min (lm_y ` set hand) * real h)
               = Min ((\<lambda>y. py_int (y * real h)) ` lm_y ` set hand)"
    using assms by (intro mono_Min_commute) simp_all
  also have "(\<lambda>y. py_int (y * real h)) ` lm_y ` set hand = scaled_y h ` set hand"
    by (simp add: image_image scaled_y_def)
  finally show ?thesis .
qed

lemma mirror_col_Min:
  assumes "finite S" "S \<noteq> {}"
  shows "Min (mirror_col w ` S) = mirror_col w (Max S)"
proof (rule Min_eqI)
  show "finite (mirror_col w ` S)" using assms(1) by simp
  show "mirror_col w (Max S) \<in> mirror_col w ` S"
    using assms by (intro imageI Max_in)
  fix y assume "y \<in> mirror_col w ` S"
  then obtain j where "j \<in> S" "y = mirror_col w j" by blast
  then show "mirror_col w (Max S) \<le> y"
    using Max_ge [OF assms(1), of j] by (simp add: mirror_col_def)
qed

lemma anchor_mirrored:
  assumes "hand \<noteq> []"
  shows "Min ((\<lambda>l. mirror_col w (scaled_x w l)) ` set hand) - (MARGIN - 1)
           = int w - (py_int (Max (lm_x ` set hand) * real w) + MARGIN)"
proof -
  have "(\<lambda>l. mirror_col w (scaled_x w l)) ` set hand = mirror_col w ` scaled_x w ` set hand"
    by (simp add: image_image)
  then have "Min ((\<lambda>l. mirror_col w (scaled_x w l)) ` set hand)
               = mirror_col w (Max (scaled_x w ` set hand))"
    using assms by (simp add: mirror_col_Min)
  then show ?thesis
    by (simp add: scaled_x_Max [OF assms] mirror_col_def)
qed

lemma cv2_flip_nth:
  assumes "wf_grid img" "i < nrows img" "j < ncols img"
  shows "cells (cv2_flip img) ! i ! nat (mirror_col (ncols img) (int j)) = cells img ! i ! j"
proof -
  have len: "length (cells img ! i) = ncols img"
    using assms(1,2) by (simp add: wf_grid_def list_all_length)
  have "nat (mirror_col (ncols img) (int j)) = ncols img - Suc j"
    using assms(3) by (simp add: mirror_col_def nat_diff_distrib)
  moreover have "cells (cv2_flip img) ! i = rev (cells img ! i)"
    using assms(1,2) by (simp add: cv2_flip_def wf_grid_def)
  moreover have "rev (cells img ! i) ! (ncols img - Suc j) = cells img ! i ! j"
    using assms(3) len by (simp add: rev_nth)
  ultimately show ?thesis by simp
qed

text \<open>
  Claim C9, as the code has it.  For every hand the loop renders, the skeleton is drawn on
  the canvas as it is, the canvas is mirrored, the label is written on the mirrored canvas,
  and the canvas is mirrored back; so the mirrored result of a hand's iteration is the
  mirrored skeleton with the label written on it.  The label's anchor is the top-left corner
  of the hand in that mirrored view, moved out by the margin: its column is \<open>MARGIN - 1\<close>
  columns left of the leftmost mirrored landmark column and its row is \<open>MARGIN\<close> rows above
  the topmost landmark row.  In the code's terms the column is
  \<open>w - (int(max x * w) + MARGIN)\<close>, from the largest x of the hand's landmarks (not the
  smallest), and the row is \<open>int(min y * h) - MARGIN\<close>.  Mirroring moves column \<open>j\<close> to
  column \<open>w - 1 - j\<close>, and mirroring twice restores the canvas.
\<close>

theorem label_anchor:
  assumes "hand \<noteq> []" "idx < length preds"
  shows "draw_hands c h w preds idx (hand # rest) canvas =
           (case draw_landmarks c canvas hand of
              Inl e \<Rightarrow> Inl e
            | Inr skeleton \<Rightarrow>
                (case putText c (cv2_flip skeleton) (preds ! idx)
                        (Min ((\<lambda>l. mirror_col w (scaled_x w l)) ` set hand) - (MARGIN - 1),
                         Min (scaled_y h ` set hand) - MARGIN) of
                   Inl e \<Rightarrow> Inl e
                 | Inr labelled \<Rightarrow> draw_hands c h w preds (Suc idx) rest (cv2_flip labelled)))
         \<and> Min ((\<lambda>l. mirror_col w (scaled_x w l)) ` set hand) - (MARGIN - 1)
             = int w - (py_int (Max (lm_x ` set hand) * real w) + MARGIN)
         \<and> Min (scaled_y h ` set hand) - MARGIN
             = py_int (Min (lm_y ` set hand) * real h) - MARGIN
         \<and> (draw_landmarks c canvas hand = Inr skeleton
              \<and> putText c (cv2_flip skeleton) (preds ! idx)
                    (Min ((\<lambda>l. mirror_col w (scaled_x w l)) ` set hand) - (MARGIN - 1),
                     Min (scaled_y h ` set hand) - MARGIN) = Inr labelled
              \<longrightarrow> (\<exists>out. draw_hands c h w preds idx [hand] canvas = Inr out
                          \<and> cv2_flip out = labelled))
         \<and> (wf_grid img \<and> i < nrows img \<and> j < ncols img \<longrightarrow>
              cells (cv2_flip img) ! i ! nat (mirror_col (ncols img) (int j)) = cells img ! i ! j)"
proof -
  have org: "text_org h w hand =
               Inr (Min ((\<lambda>l. mirror_col w (scaled_x w l)) ` set hand) - (MARGIN - 1),
                    Min (scaled_y h ` set hand) - MARGIN)"
    by (simp only: text_org_Max_Min [OF assms(1)] anchor_mirrored [OF assms(1)]
        scaled_y_Min [OF assms(1)])
  show ?thesis
    using assms(2)
    by (simp add: org anchor_mirrored [OF assms(1)] scaled_y_Min [OF assms(1)] cv2_flip_flip
        cv2_flip_nth split: sum.splits)
qed

lemma draw_wide_hand:
  "draw_hands painter_collaborators 12 12 [''A''] 0 [wide_hand] (np_zeros 12 12) = Inr wide_overlay"
  by code_simp

lemma wide_nonempty: "wide_hand \<noteq> []"
  by (simp add: wide_hand_def)

lemma wide_mirror_min: "Min ((\<lambda>l. mirror_col 12 (scaled_x 12 l)) ` set wide_hand) = 9"
  by (simp add: wide_hand_def mirror_col_def scaled_x_def py_int_def)

lemma wide_row_min: "Min (scaled_y 12 ` set wide_hand) = 10"
  by (simp add: wide_hand_def scaled_y_def py_int_def)

theorem label_anchor_witness:
  "(case draw_landmarks painter_collaborators (np_zeros 12 12) wide_hand of
      Inl e \<Rightarrow> Inl e
    | Inr skeleton \<Rightarrow>
        (case putText painter_collaborators (cv2_flip skeleton) ''A'' (0, 0) of
           Inl e \<Rightarrow> Inl e
         | Inr labelled \<Rightarrow> Inr (cv2_flip labelled))) = Inr wide_overlay
   \<and> Min ((\<lambda>l. mirror_col 12 (scaled_x 12 l)) ` set wide_hand) = 9
   \<and> Min (scaled_y 12 ` set wide_hand) = 10"
  using label_anchor [OF wide_nonempty, of 0 "[''A'']" painter_collaborators 12 12 "[]"
      "np_zeros 12 12"]
  by (simp add: draw_wide_hand wide_mirror_min wide_row_min MARGIN_def
      del: draw_hands.simps(2) cong: sum.case_cong)

theorem label_anchor_counterexample:
  "text_org 100 100 spread_hand = Inr (15, 15)
   \<and> spec_topmost_leftmost 100 100 spread_hand = Inr (50, 25)"
  by (simp add: text_org_spread_hand spec_topmost_leftmost_def py_min_Min spread_nonempty
      spread_x spread_y py_int_def)

text \<open>The callback on one right hand and on two right hands, write by write.\<close>

lemma draw_one_hand:
  "draw_landmarks_on_image fixture_collaborators fixture_bg one_hand [''A''] = Inr fixture_overlay"
  using draw_fixture_hand
  by (simp add: draw_landmarks_on_image_def one_hand_def fixture_bg_def del: draw_hands.simps)

lemma classify_one_hand:
  "classify_hand fixture_collaborators [[\<lparr>index = 0, category_name = n\<rparr>]] 0 fixture_hand = Inr ''A''"
  by (simp add: classify_fixture_right)

lemma trace_one_hand:
  "print_result_trace fixture_collaborators fixture_shared one_hand fixture_bg =
     ([\<lparr>predictions = [], drawn_frame = fixture_fg\<rparr>,
       \<lparr>predictions = [''A''], drawn_frame = fixture_fg\<rparr>,
       \<lparr>predictions = [''A''], drawn_frame = fixture_overlay\<rparr>], None)"
proof -
  have "hands_loop fixture_collaborators (handedness one_hand) 0 (hand_world_landmarks one_hand)
          (fixture_shared\<lparr>predictions := []\<rparr>) =
        ([\<lparr>predictions = [''A''], drawn_frame = fixture_fg\<rparr>], None)"
    by (simp add: one_hand_def classify_one_hand fixture_shared_def)
  then show ?thesis
    using draw_one_hand
    by (simp add: print_result_trace_def fixture_shared_def)
qed

lemma draw_two_right_hands:
  "draw_landmarks_on_image fixture_collaborators fixture_bg two_right_hands [''A'', ''A'']
     = Inr fixture_overlay"
  by (simp add: draw_landmarks_on_image_def two_right_hands_def fixture_bg_def
      text_org_fixture_hand np_zeros_2_2 fixture_collaborators_def length_fixture_hand
      map_grid_def cv2_flip_def fixture_overlay_def)

lemma hands_two_right_hands:
  "hand_world_landmarks two_right_hands = [fixture_hand, fixture_hand]"
  by (simp add: two_right_hands_def)

lemma prefix_two_right_hands:
  "classified_prefix fixture_collaborators two_right_hands [''A'', ''A''] e"
  by (simp add: classified_prefix_def two_right_hands_def All_less_Suc
      classify_fixture_right classify_fixture_right1)

theorem print_result_writes_witness:
  "print_result_trace fixture_collaborators fixture_shared two_right_hands fixture_bg =
     ([\<lparr>predictions = [], drawn_frame = fixture_fg\<rparr>,
       \<lparr>predictions = [''A''], drawn_frame = fixture_fg\<rparr>,
       \<lparr>predictions = [''A'', ''A''], drawn_frame = fixture_fg\<rparr>,
       \<lparr>predictions = [''A'', ''A''], drawn_frame = fixture_overlay\<rparr>], None)"
  using print_result_writes [of fixture_collaborators two_right_hands "[''A'', ''A'']"
      CollaboratorError fixture_shared fixture_bg]
  by (simp add: prefix_two_right_hands draw_two_right_hands hands_two_right_hands upt_conv_Cons
      Let_def fixture_shared_def)

theorem print_result_mixed_state_counterexample:
  "fst (print_result_trace fixture_collaborators fixture_shared one_hand fixture_bg) ! 1
     = \<lparr>predictions = [''A''], drawn_frame = drawn_frame fixture_shared\<rparr>
   \<and> print_result fixture_collaborators fixture_shared one_hand fixture_bg
     = \<lparr>predictions = [''A''], drawn_frame = fixture_overlay\<rparr>
   \<and> predictions fixture_shared = [''B'']
   \<and> drawn_frame fixture_shared \<noteq> fixture_overlay"
  by (simp add: trace_one_hand print_result_def)
     (simp add: fixture_shared_def fixture_fg_def fixture_overlay_def)

section \<open>The capture loop\<close>

lemma submit_step_throttle_inv:
  assumes "0 \<le> fps" "0 < interval" "throttle_inv interval st"
  shows "throttle_inv interval (submit_step interval fps t st)"
  using assms by (auto simp: throttle_inv_def submit_step_def Let_def algebra_simps)

lemma shown_throttle_inv:
  "throttle_inv interval st \<Longrightarrow> throttle_inv interval (st\<lparr>shown := xs\<rparr>)"
  by (simp add: throttle_inv_def)

lemma capture_loop_throttle_inv:
  assumes "0 \<le> fps" "0 < interval" "throttle_inv interval st"
  shows "throttle_inv interval (fst (capture_loop interval fps ticks st))"
  using assms(3)
proof (induction ticks arbitrary: st)
  case Nil
  then show ?case by simp
next
  case (Cons t ts)
  have inv1: "throttle_inv interval (submit_step interval fps t st)"
    using assms(1,2) Cons.prems by (rule submit_step_throttle_inv)
  show ?case
    using Cons.prems inv1 Cons.IH [OF shown_throttle_inv [OF inv1]]
    by (simp add: Let_def shown_throttle_inv split: sum.splits)
qed

text \<open>
  Claim C6.  For every run of the capture loop from its initial state, with a per-frame
  step that is not negative and a positive minimum gap \<open>G\<close>, the number of
  \<open>detect_async\<close> calls is at most \<open>N div G + 1\<close>, where \<open>N\<close> is the synthetic time
  elapsed at the end of the run.
\<close>

theorem submit_bound:
  assumes "0 \<le> fps" "0 < interval"
    and "capture_loop interval fps ticks initial_loop_state = (st, res)"
  shows "int (length (submitted st)) \<le> timestamp st div interval + 1"
proof -
  have "throttle_inv interval initial_loop_state"
    by (simp add: throttle_inv_def initial_loop_state_def)
  from capture_loop_throttle_inv [OF assms(1,2) this, of ticks] assms(3)
  have "int (length (submitted st)) * interval \<le> timestamp st"
    by (simp add: throttle_inv_def)
  then have "int (length (submitted st)) * interval div interval \<le> timestamp st div interval"
    using assms(2) by (rule zdiv_mono1)
  then show ?thesis using assms(2) by simp
qed

lemma composed_fixture_tick:
  "composed_frame fixture_tick =
     Inr \<lparr>nrows = 2, ncols = 2,
          cells = [[(10, 20, 30), (128, 128, 0)], [(255, 255, 255), (0, 0, 1)]]\<rparr>"
proof -
  have "add_transparent_image fixture_bg fixture_fg =
          Inr \<lparr>nrows = nrows fixture_bg, ncols = ncols fixture_bg,
               cells = map2 (map2 select_px) (cells fixture_bg) (cells fixture_fg)\<rparr>"
    by (rule composite_same_shape) (simp_all add: fixture_bg_def fixture_fg_def wf_grid_def)
  then show ?thesis
    by (simp add: composed_frame_def fixture_tick_def np_size_def)
       (simp add: fixture_bg_def fixture_fg_def select_px_def is_foreground_def)
qed

lemma key_fixture_tick: "key fixture_tick AND 255 \<noteq> 27"
  by (simp add: fixture_tick_def)

lemma flags_fixture_tick: "isOpened fixture_tick" "ret fixture_tick"
  by (simp_all add: fixture_tick_def)

theorem submit_bound_witness:
  "length (submitted (fst (capture_loop INTERVAL 4 [fixture_tick, fixture_tick, fixture_tick]
       initial_loop_state))) = 1
   \<and> timestamp (fst (capture_loop INTERVAL 4 [fixture_tick, fixture_tick, fixture_tick]
       initial_loop_state)) = 12"
  using submit_bound [of 4 INTERVAL "[fixture_tick, fixture_tick, fixture_tick]"
      "fst (capture_loop INTERVAL 4 [fixture_tick, fixture_tick, fixture_tick] initial_loop_state)"
      "snd (capture_loop INTERVAL 4 [fixture_tick, fixture_tick, fixture_tick] initial_loop_state)"]
  by (simp add: INTERVAL_def initial_loop_state_def submit_step_def composed_fixture_tick
      key_fixture_tick flags_fixture_tick Let_def)

lemma submit_step_all:
  assumes "interval < fps" "show_timestamp st = timestamp st"
  shows "submit_step interval fps t st =
           st\<lparr>timestamp := timestamp st + fps, show_timestamp := timestamp st + fps,
              submitted := submitted st @ [(cvtColor_BGR2RGB (frame t), timestamp st + fps)]\<rparr>"
  using assms by (simp add: submit_step_def Let_def)

lemma capture_loop_submits_all:
  assumes "interval < fps" "show_timestamp st = timestamp st"
  shows "map fst (submitted (fst (capture_loop interval fps ticks st))) =
           map fst (submitted st)
             @ map (\<lambda>t. cvtColor_BGR2RGB (frame t)) (take (frames_captured ticks) ticks)"
  using assms(2)
proof (induction ticks arbitrary: st)
  case Nil
  then show ?case by simp
next
  case (Cons t ts)
  let ?st1 = "submit_step interval fps t st"
  have st1: "?st1 = st\<lparr>timestamp := timestamp st + fps, show_timestamp := timestamp st + fps,
              submitted := submitted st @ [(cvtColor_BGR2RGB (frame t), timestamp st + fps)]\<rparr>"
    using assms(1) Cons.prems by (rule submit_step_all)
  have eq: "show_timestamp (?st1\<lparr>shown := xs\<rparr>) = timestamp (?st1\<lparr>shown := xs\<rparr>)" for xs
    by (simp add: st1)
  show ?case
    using Cons.IH [OF eq]
    by (simp add: Let_def st1 split: sum.splits)
qed

lemma frame_step_slow_camera:
  assumes "0 < cam_fps" "cam_fps \<le> 90"
  shows "\<exists>fps. frame_step cam_fps = Inr fps \<and> INTERVAL < fps"
proof -
  have "11 * cam_fps \<le> 1000" using assms by simp
  then have "11 \<le> 1000 / cam_fps" using assms(1) by (simp add: pos_le_divide_eq)
  then have "(11::int) \<le> \<lfloor>1000 / cam_fps\<rfloor>" by (simp add: le_floor_iff)
  then show ?thesis using assms(1) by (simp add: frame_step_def INTERVAL_def)
qed

text \<open>
  Claim C10.  When the per-frame step is greater than \<open>INTERVAL\<close>, the frames passed to
  \<open>detect_async\<close> are, in order, all the frames the loop captured; and for a camera
  rate above 0 and at most 90 the step \<open>floor(1000 / rate)\<close> is greater than
  \<open>INTERVAL\<close>.
\<close>

theorem every_frame_submitted:
  "(INTERVAL < fps \<longrightarrow>
      map fst (submitted (fst (capture_loop INTERVAL fps ticks initial_loop_state))) =
        map (\<lambda>t. cvtColor_BGR2RGB (frame t)) (take (frames_captured ticks) ticks))
   \<and> (0 < cam_fps \<and> cam_fps \<le> 90 \<longrightarrow> (\<exists>fps'. frame_step cam_fps = Inr fps' \<and> INTERVAL < fps'))"
  using capture_loop_submits_all [of INTERVAL fps initial_loop_state ticks]
    frame_step_slow_camera [of cam_fps]
  by (simp add: initial_loop_state_def)

theorem every_frame_submitted_witness:
  "frame_step 30 = Inr 33
   \<and> map fst (submitted (fst (capture_loop INTERVAL 33 [fixture_tick, fixture_tick]
        initial_loop_state))) = [cvtColor_BGR2RGB fixture_bg, cvtColor_BGR2RGB fixture_bg]"
  using every_frame_submitted [of 33 "[fixture_tick, fixture_tick]" 30]
  by (simp add: INTERVAL_def frame_step_def composed_fixture_tick key_fixture_tick
      flags_fixture_tick)
     (simp add: fixture_tick_def)

section \<open>The dataset split script\<close>

lemma expected_cols_value:
  "expected_cols =
     [''letter'', ''hand'',
      ''x0'', ''y0'', ''z0'', ''x1'', ''y1'', ''z1'', ''x2'', ''y2'', ''z2'',
      ''x3'', ''y3'', ''z3'', ''x4'', ''y4'', ''z4'', ''x5'', ''y5'', ''z5'',
      ''x6'', ''y6'', ''z6'', ''x7'', ''y7'', ''z7'', ''x8'', ''y8'', ''z8'',
      ''x9'', ''y9'', ''z9'', ''x10'', ''y10'', ''z10'', ''x11'', ''y11'', ''z11'',
      ''x12'', ''y12'', ''z12'', ''x13'', ''y13'', ''z13'', ''x14'', ''y14'', ''z14'',
      ''x15'', ''y15'', ''z15'', ''x16'', ''y16'', ''z16'', ''x17'', ''y17'', ''z17'',
      ''x18'', ''y18'', ''z18'', ''x19'', ''y19'', ''z19'', ''x20'', ''y20'', ''z20'']"
  by code_simp

lemma letters_value:
  "letters = [''A'', ''B'', ''C'', ''D'', ''E''] @ [''F'', ''G'', ''H'', ''I'', ''K'']
               @ [''L'', ''M'', ''N'', ''O'', ''P''] @ [''Q'', ''R'', ''S'', ''T'', ''U'']
               @ [''V'', ''W'', ''X'', ''Y'', ''#'']"
  by (simp add: letters_def)

lemma distinct_letters: "distinct letters"
  by (simp add: letters_value)

lemma J_not_letter: "''J'' \<notin> set letters"
  by (simp add: letters_value)

lemma spec_schema_cols_value:
  "spec_schema_cols =
     [''letter'', ''hand'',
      ''x0'', ''x1'', ''x2'', ''x3'', ''x4'', ''x5'', ''x6'', ''x7'', ''x8'', ''x9'', ''x10'',
      ''x11'', ''x12'', ''x13'', ''x14'', ''x15'', ''x16'', ''x17'', ''x18'', ''x19'', ''x20'',
      ''y0'', ''y1'', ''y2'', ''y3'', ''y4'', ''y5'', ''y6'', ''y7'', ''y8'', ''y9'', ''y10'',
      ''y11'', ''y12'', ''y13'', ''y14'', ''y15'', ''y16'', ''y17'', ''y18'', ''y19'', ''y20'',
      ''z0'', ''z1'', ''z2'', ''z3'', ''z4'', ''z5'', ''z6'', ''z7'', ''z8'', ''z9'', ''z10'',
      ''z11'', ''z12'', ''z13'', ''z14'', ''z15'', ''z16'', ''z17'', ''z18'', ''z19'', ''z20'']"
  by code_simp

lemma spec_schema_cols_rejected: "spec_schema_cols \<noteq> expected_cols"
  by code_simp

lemma spec_schema_cols_same_set: "set spec_schema_cols = set expected_cols"
  by code_simp

lemma permutes_mset: "permutes_rows sh \<Longrightarrow> mset (sh df) = mset df"
  by (simp add: permutes_rows_def)

lemma permutes_set: "permutes_rows sh \<Longrightarrow> set (sh df) = set df"
  by (metis permutes_mset set_mset_mset)

lemma permutes_length: "permutes_rows sh \<Longrightarrow> length (sh df) = length df"
  by (metis permutes_mset size_mset)

lemma permutes_distinct_fst:
  assumes "permutes_rows sh" "distinct (map fst df)"
  shows "distinct (map fst (sh df))"
proof -
  have "mset (map fst (sh df)) = mset (map fst df)"
    using permutes_mset [OF assms(1), of df] by (metis mset_map)
  then show ?thesis using assms(2) by (metis mset_eq_imp_distinct_iff)
qed

lemma train_count_le: "train_count n \<le> n"
  by (simp add: train_count_def)

lemma dropped_rows:
  assumes "distinct (map fst p)"
  shows "filter (\<lambda>ir. fst ir \<notin> set (map fst (take n p))) p = drop n p"
proof -
  have d: "distinct (map fst (take n p) @ map fst (drop n p))"
    using assms by (metis append_take_drop_id map_append)
  have a: "filter (\<lambda>ir. fst ir \<notin> set (map fst (take n p))) (take n p) = []"
    by (auto simp: filter_empty_conv)
  have b: "filter (\<lambda>ir. fst ir \<notin> set (map fst (take n p))) (drop n p) = drop n p"
    using d by (auto simp: filter_id_conv)
  have "filter (\<lambda>ir. fst ir \<notin> set (map fst (take n p))) (take n p @ drop n p) = drop n p"
    by (simp only: filter_append a b append_Nil)
  then show ?thesis by simp
qed

lemma split_letter_eq:
  assumes "permutes_rows sh"
  shows "split_letter sh df l =
           (let ld = filter (\<lambda>ir. letter_of (snd ir) = l) df;
                tr = take (train_count (length ld)) (sh ld)
            in Inr (tr, sh (filter (\<lambda>ir. fst ir \<notin> set (map fst tr)) ld)))"
proof -
  let ?ld = "filter (\<lambda>ir. letter_of (snd ir) = l) df"
  let ?n = "train_count (length ?ld)"
  let ?tr = "take ?n (sh ?ld)"
  let ?rem = "filter (\<lambda>ir. fst ir \<notin> set (map fst ?tr)) ?ld"
  have s1: "df_sample sh ?n ?ld = Inr ?tr"
    using train_count_le [of "length ?ld"] by (simp add: df_sample_def)
  have "set ?tr \<subseteq> set ?ld"
    using set_take_subset [of ?n "sh ?ld"] permutes_set [OF assms, of ?ld] by simp
  then have s2: "df_drop (map fst ?tr) ?ld = Inr ?rem"
    by (auto simp: df_drop_def list_all_iff)
  have s3: "df_sample sh (length ?rem) ?rem = Inr (sh ?rem)"
    by (simp add: df_sample_def permutes_length [OF assms])
  show ?thesis
    using s1 s2 s3 by (simp add: split_letter_def Let_def)
qed

lemma split_loop_succeeds:
  assumes "permutes_rows sh"
  shows "\<exists>trs tes. split_loop sh df ls (a, b) = Inr (trs, tes)"
proof (induction ls arbitrary: a b)
  case Nil
  show ?case by simp
next
  case (Cons l rest)
  obtain tr te where "split_letter sh df l = Inr (tr, te)"
    using split_letter_eq [OF assms, of df l] by (simp add: Let_def)
  then show ?case using Cons.IH [of "a @ [tr]" "b @ [te]"] by simp
qed

lemma split_rows_succeeds:
  assumes "permutes_rows sh"
  shows "\<exists>train_df test_df. split_rows sh df = Inr (train_df, test_df)"
proof -
  obtain trs tes where "split_loop sh df letters ([], []) = Inr (trs, tes)"
    using split_loop_succeeds [OF assms, of df letters "[]" "[]"] by blast
  then show ?thesis by (simp add: split_rows_def)
qed

lemma split_letter_ok:
  assumes "permutes_rows sh" "distinct (map fst df)"
  shows "\<exists>tr te. split_letter sh df l = Inr (tr, te)
           \<and> mset tr + mset te = mset (filter (\<lambda>ir. letter_of (snd ir) = l) df)
           \<and> length tr = train_count (length (filter (\<lambda>ir. letter_of (snd ir) = l) df))"
proof -
  let ?ld = "filter (\<lambda>ir. letter_of (snd ir) = l) df"
  let ?n = "train_count (length ?ld)"
  let ?p = "sh ?ld"
  let ?tr = "take ?n ?p"
  let ?Q = "\<lambda>ir. fst ir \<notin> set (map fst ?tr)"
  let ?rem = "filter ?Q ?ld"
  have dl: "distinct (map fst ?ld)"
    using assms(2) by (simp add: distinct_map_filter)
  have dp: "distinct (map fst ?p)"
    using assms(1) dl by (rule permutes_distinct_fst)
  have "mset ?rem = filter_mset ?Q (mset ?ld)" by (rule mset_filter)
  also have "\<dots> = filter_mset ?Q (mset ?p)"
    by (simp only: permutes_mset [OF assms(1)])
  also have "\<dots> = mset (filter ?Q ?p)" by (rule mset_filter [symmetric])
  also have "\<dots> = mset (drop ?n ?p)"
    by (simp only: dropped_rows [OF dp])
  finally have "mset ?rem = mset (drop ?n ?p)" .
  then have e: "mset (sh ?rem) = mset (drop ?n ?p)"
    by (simp only: permutes_mset [OF assms(1)])
  have "mset ?tr + mset (sh ?rem) = mset (?tr @ drop ?n ?p)"
    by (simp only: e mset_append)
  also have "\<dots> = mset ?ld"
    by (simp only: append_take_drop_id permutes_mset [OF assms(1)])
  finally have m: "mset ?tr + mset (sh ?rem) = mset ?ld" .
  have len: "length ?tr = ?n"
    using train_count_le [of "length ?ld"] by (simp add: permutes_length [OF assms(1)])
  have "split_letter sh df l = Inr (?tr, sh ?rem)"
    using split_letter_eq [OF assms(1), of df l] by (simp add: Let_def)
  with m len show ?thesis by blast
qed

lemma split_letter_rows:
  assumes "mset tr + mset te = mset (filter (\<lambda>ir. letter_of (snd ir) = l) df)"
  shows "count_letter l' (map snd tr) = (if l' = l then length tr else 0)"
    and "count_letter l' (map snd te) = (if l' = l then length te else 0)"
    and "length tr + length te = count_letter l (map snd df)"
proof -
  have sub: "set tr \<union> set te = set (filter (\<lambda>ir. letter_of (snd ir) = l) df)"
    using assms by (metis set_mset_mset set_mset_union)
  then have tr: "\<forall>ir \<in> set tr. letter_of (snd ir) = l" and te: "\<forall>ir \<in> set te. letter_of (snd ir) = l"
    by auto
  show "count_letter l' (map snd tr) = (if l' = l then length tr else 0)"
    using tr by (auto simp: count_letter_def filter_map comp_def filter_id_conv filter_empty_conv)
  show "count_letter l' (map snd te) = (if l' = l then length te else 0)"
    using te by (auto simp: count_letter_def filter_map comp_def filter_id_conv filter_empty_conv)
  have "length tr + length te = length (filter (\<lambda>ir. letter_of (snd ir) = l) df)"
    using arg_cong [OF assms, of size] by (simp only: size_union size_mset)
  then show "length tr + length te = count_letter l (map snd df)"
    by (simp add: count_letter_def filter_map comp_def)
qed

lemma mset_filter_disjoint:
  assumes "\<forall>x \<in> set xs. \<not> (P x \<and> Q x)"
  shows "mset (filter P xs) + mset (filter Q xs) = mset (filter (\<lambda>x. P x \<or> Q x) xs)"
  using assms by (induction xs) auto

lemma count_letter_append:
  "count_letter l (xs @ ys) = count_letter l xs + count_letter l ys"
  by (simp add: count_letter_def)

lemma split_loop_ok:
  assumes "permutes_rows sh" "distinct (map fst df)" "distinct ls"
  shows "\<exists>trs tes. split_loop sh df ls (a, b) = Inr (a @ trs, b @ tes)
           \<and> mset (concat trs) + mset (concat tes)
               = mset (filter (\<lambda>ir. letter_of (snd ir) \<in> set ls) df)
           \<and> (\<forall>l. count_letter l (map snd (concat trs))
                  = (if l \<in> set ls then train_count (count_letter l (map snd df)) else 0))
           \<and> (\<forall>l. count_letter l (map snd (concat tes))
                  = (if l \<in> set ls
                     then count_letter l (map snd df) - train_count (count_letter l (map snd df))
                     else 0))"
  using assms(3)
proof (induction ls arbitrary: a b)
  case Nil
  show ?case
    by (rule exI [of _ "[]"], rule exI [of _ "[]"]) (simp add: count_letter_def)
next
  case (Cons l rest)
  then have l_new: "l \<notin> set rest" and d_rest: "distinct rest" by simp_all
  obtain tr te where sl: "split_letter sh df l = Inr (tr, te)"
    and m: "mset tr + mset te = mset (filter (\<lambda>ir. letter_of (snd ir) = l) df)"
    and len: "length tr = train_count (length (filter (\<lambda>ir. letter_of (snd ir) = l) df))"
    using split_letter_ok [OF assms(1,2), of l] by blast
  note rows = split_letter_rows [OF m]
  have len': "length tr = train_count (count_letter l (map snd df))"
    using len by (simp add: count_letter_def filter_map comp_def)
  have len_te: "length te = count_letter l (map snd df) - train_count (count_letter l (map snd df))"
    using rows(3) len' by simp
  obtain trs tes where
    run: "split_loop sh df rest (a @ [tr], b @ [te]) = Inr ((a @ [tr]) @ trs, (b @ [te]) @ tes)"
    and ms: "mset (concat trs) + mset (concat tes)
               = mset (filter (\<lambda>ir. letter_of (snd ir) \<in> set rest) df)"
    and c_tr: "\<forall>l'. count_letter l' (map snd (concat trs))
                  = (if l' \<in> set rest then train_count (count_letter l' (map snd df)) else 0)"
    and c_te: "\<forall>l'. count_letter l' (map snd (concat tes))
                  = (if l' \<in> set rest
                     then count_letter l' (map snd df) - train_count (count_letter l' (map snd df))
                     else 0)"
    using Cons.IH [OF d_rest, of "a @ [tr]" "b @ [te]"] by blast
  have r: "split_loop sh df (l # rest) (a, b) = Inr (a @ (tr # trs), b @ (te # tes))"
    using sl run by simp
  have "mset (concat (tr # trs)) + mset (concat (te # tes))
          = (mset tr + mset te) + (mset (concat trs) + mset (concat tes))"
    by simp
  also have "\<dots> = mset (filter (\<lambda>ir. letter_of (snd ir) = l) df)
                    + mset (filter (\<lambda>ir. letter_of (snd ir) \<in> set rest) df)"
    by (simp only: m ms)
  also have "\<dots> = mset (filter (\<lambda>ir. letter_of (snd ir) = l \<or> letter_of (snd ir) \<in> set rest) df)"
    using l_new by (intro mset_filter_disjoint) auto
  also have "\<dots> = mset (filter (\<lambda>ir. letter_of (snd ir) \<in> set (l # rest)) df)"
    by (simp add: disj_commute eq_commute)
  finally have m': "mset (concat (tr # trs)) + mset (concat (te # tes))
                      = mset (filter (\<lambda>ir. letter_of (snd ir) \<in> set (l # rest)) df)" .
  have c1: "\<forall>l'. count_letter l' (map snd (concat (tr # trs)))
               = (if l' \<in> set (l # rest) then train_count (count_letter l' (map snd df)) else 0)"
    using rows(1) c_tr len' l_new by (auto simp: count_letter_append)
  have c2: "\<forall>l'. count_letter l' (map snd (concat (te # tes)))
               = (if l' \<in> set (l # rest)
                  then count_letter l' (map snd df) - train_count (count_letter l' (map snd df))
                  else 0)"
    using rows(2) c_te len_te l_new by (auto simp: count_letter_append)
  from r m' c1 c2 show ?case by blast
qed

lemma count_letter_mset: "mset xs = mset ys \<Longrightarrow> count_letter l xs = count_letter l ys"
  by (metis count_letter_def mset_filter size_mset)

lemma count_letter_shuffle:
  "permutes_rows sh \<Longrightarrow> count_letter l (map snd (sh df)) = count_letter l (map snd df)"
  by (rule count_letter_mset) (simp add: permutes_mset)

lemma split_rows_ok:
  assumes "permutes_rows sh" "distinct (map fst df)"
  shows "\<exists>train_df test_df.
           split_rows sh df = Inr (train_df, test_df)
           \<and> mset (train_df @ test_df)
               = mset (filter (\<lambda>ir. letter_of (snd ir) \<in> set letters) df)
           \<and> (\<forall>l. count_letter l (map snd train_df)
                  = (if l \<in> set letters then train_count (count_letter l (map snd df)) else 0))
           \<and> (\<forall>l. count_letter l (map snd test_df)
                  = (if l \<in> set letters
                     then count_letter l (map snd df) - train_count (count_letter l (map snd df))
                     else 0))"
proof -
  obtain trs tes where
    run: "split_loop sh df letters ([], []) = Inr ([] @ trs, [] @ tes)"
    and ms: "mset (concat trs) + mset (concat tes)
               = mset (filter (\<lambda>ir. letter_of (snd ir) \<in> set letters) df)"
    and c_tr: "\<forall>l. count_letter l (map snd (concat trs))
                  = (if l \<in> set letters then train_count (count_letter l (map snd df)) else 0)"
    and c_te: "\<forall>l. count_letter l (map snd (concat tes))
                  = (if l \<in> set letters
                     then count_letter l (map snd df) - train_count (count_letter l (map snd df))
                     else 0)"
    using split_loop_ok [OF assms distinct_letters, where a = "[]" and b = "[]"] by blast
  have r: "split_rows sh df = Inr (sh (concat trs), sh (concat tes))"
    using run by (simp add: split_rows_def)
  have m: "mset (sh (concat trs) @ sh (concat tes))
             = mset (filter (\<lambda>ir. letter_of (snd ir) \<in> set letters) df)"
    using ms by (simp add: permutes_mset [OF assms(1)])
  have c1: "\<forall>l. count_letter l (map snd (sh (concat trs)))
                  = (if l \<in> set letters then train_count (count_letter l (map snd df)) else 0)"
    using c_tr by (simp add: count_letter_shuffle [OF assms(1)])
  have c2: "\<forall>l. count_letter l (map snd (sh (concat tes)))
                  = (if l \<in> set letters
                     then count_letter l (map snd df) - train_count (count_letter l (map snd df))
                     else 0)"
    using c_te by (simp add: count_letter_shuffle [OF assms(1)])
  from r m c1 c2 show ?thesis by blast
qed

text \<open>
  Claim C7, as the code has it.  For a data frame whose index labels are pairwise
  different (as they are when \<open>read_csv\<close> labels the rows by position) and a generator
  that permutes the rows it is given, the split succeeds; the two outputs together hold,
  exactly once each, the input rows whose letter is one of the 25 symbols of \<open>letters\<close>
  (rows with any other letter are in neither output); and for each of these symbols with
  \<open>n\<close> input rows, \<open>4 * n div 5\<close> of them are in the training output and the other
  \<open>n - 4 * n div 5\<close> in the test output: 80 and 20 for 100 rows of letter A.
\<close>

theorem split_rows_partition:
  assumes "permutes_rows shuffle" "distinct (map fst df)"
  shows "\<exists>train_df test_df.
           split_rows shuffle df = Inr (train_df, test_df)
           \<and> mset (train_df @ test_df)
               = mset (filter (\<lambda>ir. letter_of (snd ir) \<in> set letters) df)
           \<and> distinct (map fst (train_df @ test_df))
           \<and> (\<forall>l. l \<in> set letters \<longrightarrow>
                  count_letter l (map snd train_df) = 4 * count_letter l (map snd df) div 5
                  \<and> count_letter l (map snd test_df)
                      = count_letter l (map snd df) - 4 * count_letter l (map snd df) div 5)
           \<and> (count_letter ''A'' (map snd df) = 100 \<longrightarrow>
                  count_letter ''A'' (map snd train_df) = 80
                  \<and> count_letter ''A'' (map snd test_df) = 20)"
proof -
  obtain train_df test_df where
    r: "split_rows shuffle df = Inr (train_df, test_df)"
    and m: "mset (train_df @ test_df)
              = mset (filter (\<lambda>ir. letter_of (snd ir) \<in> set letters) df)"
    and c1: "\<forall>l. count_letter l (map snd train_df)
                  = (if l \<in> set letters then train_count (count_letter l (map snd df)) else 0)"
    and c2: "\<forall>l. count_letter l (map snd test_df)
                  = (if l \<in> set letters
                     then count_letter l (map snd df) - train_count (count_letter l (map snd df))
                     else 0)"
    using split_rows_ok [OF assms] by blast
  have "mset (map fst (train_df @ test_df))
          = mset (map fst (filter (\<lambda>ir. letter_of (snd ir) \<in> set letters) df))"
    using m by (metis mset_map)
  moreover have "distinct (map fst (filter (\<lambda>ir. letter_of (snd ir) \<in> set letters) df))"
    using assms(2) by (rule distinct_map_filter)
  ultimately have d: "distinct (map fst (train_df @ test_df))"
    by (metis mset_eq_imp_distinct_iff)
  have A: "''A'' \<in> set letters" by (simp add: letters_value)
  have c3: "\<forall>l. l \<in> set letters \<longrightarrow>
                  count_letter l (map snd train_df) = 4 * count_letter l (map snd df) div 5
                  \<and> count_letter l (map snd test_df)
                      = count_letter l (map snd df) - 4 * count_letter l (map snd df) div 5"
    using c1 c2 by (simp add: train_count_def)
  have c4: "count_letter ''A'' (map snd df) = 100 \<longrightarrow>
                  count_letter ''A'' (map snd train_df) = 80
                  \<and> count_letter ''A'' (map snd test_df) = 20"
    using c3 A by auto
  from r m d c3 c4 show ?thesis by blast
qed

lemma permutes_rev: "permutes_rows rev"
  by (simp add: permutes_rows_def)

theorem split_rows_partition_witness:
  "\<exists>train_df test_df.
     split_rows rev (enumerate 0 (replicate 100 [''A'', ''1''])) = Inr (train_df, test_df)
     \<and> count_letter ''A'' (map snd train_df) = 80
     \<and> count_letter ''A'' (map snd test_df) = 20"
proof -
  have "count_letter ''A'' (map snd (enumerate 0 (replicate 100 [''A'', ''1'']))) = 100"
    by (simp add: count_letter_def letter_of_def)
  moreover have "distinct (map fst (enumerate 0 (replicate 100 [''A'', ''1''])))"
    by simp
  ultimately show ?thesis
    using split_rows_partition [OF permutes_rev, of "enumerate 0 (replicate 100 [''A'', ''1''])"]
    by blast
qed

lemma letter_of_a_row: "letter_of (a_row k) = ''A''"
  by (simp add: a_row_def letter_of_def)

lemma split_J_row:
  "split_rows rev [(0::nat, ''J'' # replicate 64 ''0'')] = Inr ([], [])"
  by (simp add: split_rows_def letters_value split_letter_def df_sample_def df_drop_def
      train_count_def letter_of_def)

lemma split_same_label:
  "split_rows rev (map (\<lambda>r. (''s1'', r)) five_a_rows) =
     Inr ([(''s1'', a_row ''1''), (''s1'', a_row ''2''), (''s1'', a_row ''3''),
           (''s1'', a_row ''4'')], [])"
  by (simp add: split_rows_def letters_value split_letter_def df_sample_def df_drop_def
      train_count_def letter_of_a_row five_a_rows_def)

text \<open>
  A frame with the expected column names and a single row of letter J gives two empty
  outputs; and a frame of five rows of letter A that share one index label gives four
  training rows and no test row, so one row of a configured letter is in neither output.
\<close>

theorem split_dataset_drops_row_counterexample:
  "split_dataset rev (Inr j_frame) Map.empty =
     ([train_csv \<mapsto> \<lparr>header = expected_cols, lines = []\<rparr>,
       test_csv \<mapsto> \<lparr>header = expected_cols, lines = []\<rparr>], None)
   \<and> labelled_rows j_frame = [(0, ''J'' # replicate 64 ''0'')]
   \<and> split_dataset rev (Inr same_label_frame) Map.empty =
     ([train_csv \<mapsto> \<lparr>header = expected_cols,
                        lines = [a_row ''1'', a_row ''2'', a_row ''3'', a_row ''4'']\<rparr>,
       test_csv \<mapsto> \<lparr>header = expected_cols, lines = []\<rparr>], None)
   \<and> map snd (labelled_rows same_label_frame) = five_a_rows"
  by (simp add: split_dataset_def j_frame_def same_label_frame_def split_J_row
      split_same_label comp_def)

text \<open>
  Claim C8, as the code has it.  The column names the script expects are letter, hand, then
  x, y, z of landmark 0, x, y, z of landmark 1, and so on up to landmark 20, in this order.
  When the frame's column names differ from this list, the script ends with
  \<open>ValueError\<close> and the files are what they were; when they are this list, the script
  writes both outputs, each with that header.
\<close>

theorem split_dataset_schema:
  "expected_cols =
     [''letter'', ''hand'',
      ''x0'', ''y0'', ''z0'', ''x1'', ''y1'', ''z1'', ''x2'', ''y2'', ''z2'',
      ''x3'', ''y3'', ''z3'', ''x4'', ''y4'', ''z4'', ''x5'', ''y5'', ''z5'',
      ''x6'', ''y6'', ''z6'', ''x7'', ''y7'', ''z7'', ''x8'', ''y8'', ''z8'',
      ''x9'', ''y9'', ''z9'', ''x10'', ''y10'', ''z10'', ''x11'', ''y11'', ''z11'',
      ''x12'', ''y12'', ''z12'', ''x13'', ''y13'', ''z13'', ''x14'', ''y14'', ''z14'',
      ''x15'', ''y15'', ''z15'', ''x16'', ''y16'', ''z16'', ''x17'', ''y17'', ''z17'',
      ''x18'', ''y18'', ''z18'', ''x19'', ''y19'', ''z19'', ''x20'', ''y20'', ''z20'']
   \<and> (columns df \<noteq> expected_cols \<longrightarrow>
         split_dataset shuffle (Inr df) fs = (fs, Some ValueError))
   \<and> (columns df = expected_cols \<and> permutes_rows shuffle \<longrightarrow>
         (\<exists>train_df test_df.
            split_rows shuffle (labelled_rows df) = Inr (train_df, test_df)
            \<and> split_dataset shuffle (Inr df) fs =
                (fs(train_csv \<mapsto> \<lparr>header = expected_cols, lines = map snd train_df\<rparr>,
                    test_csv \<mapsto> \<lparr>header = expected_cols, lines = map snd test_df\<rparr>),
                 None)))"
proof (intro conjI impI)
  show "expected_cols =
     [''letter'', ''hand'',
      ''x0'', ''y0'', ''z0'', ''x1'', ''y1'', ''z1'', ''x2'', ''y2'', ''z2'',
      ''x3'', ''y3'', ''z3'', ''x4'', ''y4'', ''z4'', ''x5'', ''y5'', ''z5'',
      ''x6'', ''y6'', ''z6'', ''x7'', ''y7'', ''z7'', ''x8'', ''y8'', ''z8'',
      ''x9'', ''y9'', ''z9'', ''x10'', ''y10'', ''z10'', ''x11'', ''y11'', ''z11'',
      ''x12'', ''y12'', ''z12'', ''x13'', ''y13'', ''z13'', ''x14'', ''y14'', ''z14'',
      ''x15'', ''y15'', ''z15'', ''x16'', ''y16'', ''z16'', ''x17'', ''y17'', ''z17'',
      ''x18'', ''y18'', ''z18'', ''x19'', ''y19'', ''z19'', ''x20'', ''y20'', ''z20'']"
    by (rule expected_cols_value)
next
  assume "columns df \<noteq> expected_cols"
  then show "split_dataset shuffle (Inr df) fs = (fs, Some ValueError)"
    by (simp add: split_dataset_def)
next
  assume ok: "columns df = expected_cols \<and> permutes_rows shuffle"
  then obtain train_df test_df where
    r: "split_rows shuffle (labelled_rows df) = Inr (train_df, test_df)"
    using split_rows_succeeds [of shuffle "labelled_rows df"] by blast
  with ok have "split_dataset shuffle (Inr df) fs =
      (fs(train_csv \<mapsto> \<lparr>header = expected_cols, lines = map snd train_df\<rparr>,
          test_csv \<mapsto> \<lparr>header = expected_cols, lines = map snd test_df\<rparr>), None)"
    by (simp add: split_dataset_def)
  with r show "\<exists>train_df test_df.
      split_rows shuffle (labelled_rows df) = Inr (train_df, test_df)
      \<and> split_dataset shuffle (Inr df) fs =
          (fs(train_csv \<mapsto> \<lparr>header = expected_cols, lines = map snd train_df\<rparr>,
              test_csv \<mapsto> \<lparr>header = expected_cols, lines = map snd test_df\<rparr>), None)"
    by blast
qed

lemma swapped_cols_rejected: "''hand'' # ''letter'' # drop 2 expected_cols \<noteq> expected_cols"
  by (simp add: expected_cols_def)

lemma split_a_rows:
  "split_rows rev (enumerate 0 five_a_rows) =
     Inr ([(1, a_row ''1''), (2, a_row ''2''), (3, a_row ''3''), (4, a_row ''4'')],
          [(0, a_row ''0'')])"
  by (simp add: split_rows_def letters_value split_letter_def df_sample_def df_drop_def
      train_count_def letter_of_a_row enumerate_eq_zip upt_rec five_a_rows_def)

theorem split_dataset_schema_witness:
  "split_dataset rev (Inr swapped_frame) Map.empty = (Map.empty, Some ValueError)
   \<and> split_dataset rev (Inr a_frame) Map.empty
       = ([train_csv \<mapsto> \<lparr>header = expected_cols,
                           lines = [a_row ''1'', a_row ''2'', a_row ''3'', a_row ''4'']\<rparr>,
           test_csv \<mapsto> \<lparr>header = expected_cols, lines = [a_row ''0'']\<rparr>], None)"
  using split_dataset_schema [of swapped_frame rev Map.empty]
    split_dataset_schema [of a_frame rev Map.empty]
  by (simp add: swapped_frame_def a_frame_def swapped_cols_rejected permutes_rev split_a_rows)

text \<open>
  A frame whose column names are exactly the spec's schema in the order the spec writes it
  (the same set of names as the expected list) is refused.
\<close>

theorem split_dataset_spec_order_counterexample:
  "columns spec_order_frame = spec_schema_cols
   \<and> set spec_schema_cols = set expected_cols
   \<and> split_dataset rev (Inr spec_order_frame) Map.empty = (Map.empty, Some ValueError)"
  by (simp add: split_dataset_def spec_order_frame_def spec_schema_cols_rejected
      spec_schema_cols_same_set)

end
